theory Spec2Isabelle
  imports Complex_Main
begin

section \<open>Errors and the outside world\<close>

text \<open>
  A model of the resilient email service: the rate limiter, the circuit breaker, the retry
  queue and \<^verbatim>\<open>EmailService\<close>, which composes them. Every method is a function from the
  state it reads to its result and the state it leaves. Names are those of the source;
  record fields that would clash carry a prefix (\<open>msg_\<close>, \<open>item_\<close>, \<open>cfg_\<close>, \<open>queue_\<close>).
  Time stamps and counters are integers, strings are lists of characters.
\<close>

text \<open>
  The service throws plain \<^verbatim>\<open>Error\<close> objects (\<^verbatim>\<open>new Error('CIRCUIT')\<close>,
  \<^verbatim>\<open>new Error('RATE_LIMIT')\<close>) and \<^verbatim>\<open>EmailError\<close> objects, which carry a code
  of \<^verbatim>\<open>ERROR_CODES\<close> (core/constants.ts) and an optional original error
  (core/types.ts). A throw is the \<open>Inl\<close> branch of a sum.
\<close>

datatype error_code =
    DUPLICATE_MESSAGE
  | ALL_PROVIDERS_FAILED
  | PROVIDER_ERROR
  | SERVICE_DEGRADED
  | RATE_LIMIT_EXCEEDED
  | RATE_LIMIT
  | CIRCUIT_BREAKER_OPEN
  | INVALID_CONFIG
  | QUEUE_FULL

datatype js_error =
    Error string
  | EmailError string error_code "js_error option"

fun message :: "js_error \<Rightarrow> string" where
  "message (Error m) = m"
| "message (EmailError m c orig) = m"

text \<open>
  The retry settings \<^verbatim>\<open>initialDelay\<close>, \<^verbatim>\<open>maxDelay\<close> and \<^verbatim>\<open>backoffFactor\<close> and the
  values of \<^verbatim>\<open>Math.random\<close> are finite JavaScript numbers, each of which is a real
  number. The arithmetic on them is not: the engine computes in IEEE 754 binary64, where
  a product is rounded, overflows to \<^verbatim>\<open>Infinity\<close>, and \<^verbatim>\<open>0 * Infinity\<close> is
  \<^verbatim>\<open>NaN\<close>; \<^verbatim>\<open>Math.min\<close> of \<^verbatim>\<open>NaN\<close> is \<^verbatim>\<open>NaN\<close>; the result of
  \<^verbatim>\<open>Math.pow\<close> is left to the implementation. The only number the service computes in
  this arithmetic is the backoff delay, and the only use it makes of it is to hand it to
  \<^verbatim>\<open>setTimeout\<close>. The model therefore does not evaluate that number: a \<open>js_number\<close>
  is the arithmetic expression the code evaluates, with its operands.
\<close>

datatype js_number =
    Number real
  | Mul js_number js_number
  | Add js_number js_number
  | Math_pow js_number js_number
  | Math_min js_number js_number

text \<open>
  Everything the code reads from or does to its environment: the injected clock
  \<^verbatim>\<open>getCurrentTime\<close> (the \<open>k\<close>-th call returns \<open>clockAt k\<close>, any sequence of
  integer millisecond stamps), \<^verbatim>\<open>Math.random\<close>, \<^verbatim>\<open>uuidv4\<close>, \<^verbatim>\<open>Date.now\<close>,
  the calls made to the backends' \<^verbatim>\<open>send\<close> (provider name and message id, in order)
  and the delays handed to \<^verbatim>\<open>setTimeout\<close>, in order.
\<close>

record world =
  clockAt :: "nat \<Rightarrow> int"
  clockCalls :: nat
  randomAt :: "nat \<Rightarrow> real"
  randomCalls :: nat
  uuidAt :: "nat \<Rightarrow> string"
  uuidCalls :: nat
  dateNowAt :: "nat \<Rightarrow> int"
  dateNowCalls :: nat
  sendLog :: "(string \<times> string) list"
  timerLog :: "js_number list"

definition getCurrentTime :: "world \<Rightarrow> int \<times> world" where
  "getCurrentTime w = (clockAt w (clockCalls w), w\<lparr>clockCalls := Suc (clockCalls w)\<rparr>)"

definition Math_random :: "world \<Rightarrow> real \<times> world" where
  "Math_random w = (randomAt w (randomCalls w), w\<lparr>randomCalls := Suc (randomCalls w)\<rparr>)"

definition uuidv4 :: "world \<Rightarrow> string \<times> world" where
  "uuidv4 w = (uuidAt w (uuidCalls w), w\<lparr>uuidCalls := Suc (uuidCalls w)\<rparr>)"

definition Date_now :: "world \<Rightarrow> int \<times> world" where
  "Date_now w = (dateNowAt w (dateNowCalls w), w\<lparr>dateNowCalls := Suc (dateNowCalls w)\<rparr>)"

definition setTimeout :: "js_number \<Rightarrow> world \<Rightarrow> world" where
  "setTimeout delay w = w\<lparr>timerLog := timerLog w @ [delay]\<rparr>"

section \<open>CircuitBreaker (utils/CircuitBreaker.ts)\<close>

datatype circuit_state = CLOSED | OPEN | HALF_OPEN

record CircuitBreaker =
  state :: circuit_state
  failureCount :: int
  lastFailureTime :: "int option"
  failureThreshold :: int
  resetTimeout :: int

definition new_CircuitBreaker :: "int \<Rightarrow> int \<Rightarrow> CircuitBreaker" where
  "new_CircuitBreaker threshold timeout =
     \<lparr>state = CLOSED, failureCount = 0, lastFailureTime = None,
      failureThreshold = threshold, resetTimeout = timeout\<rparr>"

text \<open>
  \<^verbatim>\<open>this.lastFailureTime && ...\<close> tests the field for truthiness: \<^verbatim>\<open>null\<close> is falsy,
  and so is the number \<open>0\<close>.
\<close>

fun truthy :: "int option \<Rightarrow> bool" where
  "truthy None = False"
| "truthy (Some t) = (t \<noteq> 0)"

text \<open>
  The first block of \<^verbatim>\<open>execute\<close> (lines 21-28): an open breaker reads the clock and
  either becomes half-open or throws \<^verbatim>\<open>Error('CIRCUIT')\<close>. The clock is read only
  when the breaker is open.
\<close>

definition execute_guard :: "CircuitBreaker \<Rightarrow> world \<Rightarrow> (js_error + CircuitBreaker) \<times> world" where
  "execute_guard cb w =
     (if state cb = OPEN then
        (case getCurrentTime w of (now, w1) \<Rightarrow>
           (if truthy (lastFailureTime cb) \<and> now - the (lastFailureTime cb) \<ge> resetTimeout cb
            then (Inr (cb\<lparr>state := HALF_OPEN\<rparr>), w1)
            else (Inl (Error ''CIRCUIT''), w1)))
      else (Inr cb, w))"

text \<open>The \<^verbatim>\<open>try\<close> branch after the operation returned (lines 32-37).\<close>

definition execute_onSuccess :: "CircuitBreaker \<Rightarrow> CircuitBreaker" where
  "execute_onSuccess cb =
     (if state cb = HALF_OPEN
      then cb\<lparr>state := CLOSED, failureCount := 0, lastFailureTime := None\<rparr>
      else cb)"

text \<open>The \<^verbatim>\<open>catch\<close> branch after the operation threw (lines 39-45).\<close>

definition execute_onFailure :: "CircuitBreaker \<Rightarrow> world \<Rightarrow> CircuitBreaker \<times> world" where
  "execute_onFailure cb w =
     (case getCurrentTime w of (now, w1) \<Rightarrow>
        (let cb1 = cb\<lparr>failureCount := failureCount cb + 1, lastFailureTime := Some now\<rparr>
         in (if failureCount cb1 \<ge> failureThreshold cb1 then cb1\<lparr>state := OPEN\<rparr> else cb1, w1)))"

text \<open>
  \<^verbatim>\<open>execute(fn)\<close>: the operation is a state transformer on the world that returns or
  throws. The result is what \<^verbatim>\<open>execute\<close> returns or throws, the breaker afterwards
  and the world afterwards. Nothing else touches the breaker while the operation runs.
\<close>

definition execute ::
  "CircuitBreaker \<Rightarrow> (world \<Rightarrow> (js_error + 'a) \<times> world) \<Rightarrow> world
     \<Rightarrow> (js_error + 'a) \<times> CircuitBreaker \<times> world" where
  "execute cb fn w =
     (case execute_guard cb w of
        (Inl e, w1) \<Rightarrow> (Inl e, cb, w1)
      | (Inr cb1, w1) \<Rightarrow>
          (case fn w1 of
             (Inr result, w2) \<Rightarrow> (Inr result, execute_onSuccess cb1, w2)
           | (Inl err, w2) \<Rightarrow>
               (case execute_onFailure cb1 w2 of (cb2, w3) \<Rightarrow> (Inl err, cb2, w3))))"

definition getState :: "CircuitBreaker \<Rightarrow> circuit_state" where
  "getState cb = state cb"

definition reset :: "CircuitBreaker \<Rightarrow> CircuitBreaker" where
  "reset cb = cb\<lparr>state := CLOSED, failureCount := 0, lastFailureTime := None\<rparr>"

section \<open>RateLimiter (utils/RateLimiter.ts)\<close>

text \<open>The stamps of the admitted requests, oldest first.\<close>

record RateLimiter =
  requestTimestamps :: "int list"
  maxRequests :: int
  timeWindow :: int

definition new_RateLimiter :: "int \<Rightarrow> int \<Rightarrow> RateLimiter" where
  "new_RateLimiter n window = \<lparr>requestTimestamps = [], maxRequests = n, timeWindow = window\<rparr>"

definition cleanupOldRequests :: "int \<Rightarrow> RateLimiter \<Rightarrow> RateLimiter" where
  "cleanupOldRequests now rl =
     (let cutoff = now - timeWindow rl
      in rl\<lparr>requestTimestamps := filter (\<lambda>timestamp. timestamp > cutoff) (requestTimestamps rl)\<rparr>)"

text \<open>
  \<^verbatim>\<open>acquire\<close>. When the list is empty \<^verbatim>\<open>requestTimestamps[0]\<close> is \<^verbatim>\<open>undefined\<close>,
  \<^verbatim>\<open>waitTime\<close> is \<^verbatim>\<open>NaN\<close> and \<^verbatim>\<open>NaN > 0\<close> is false: nothing is thrown.
\<close>

definition acquire :: "RateLimiter \<Rightarrow> world \<Rightarrow> (js_error + unit) \<times> RateLimiter \<times> world" where
  "acquire rl w =
     (case getCurrentTime w of (now, w1) \<Rightarrow>
        (let rl1 = cleanupOldRequests now rl;
             throws =
               (if int (length (requestTimestamps rl1)) \<ge> maxRequests rl1 then
                  (case requestTimestamps rl1 of
                     [] \<Rightarrow> False
                   | oldestRequest # rest \<Rightarrow>
                       (let waitTime = oldestRequest + timeWindow rl1 - now in waitTime > 0))
                else False)
         in if throws then (Inl (Error ''RATE_LIMIT''), rl1, w1)
            else (Inr (), rl1\<lparr>requestTimestamps := requestTimestamps rl1 @ [now]\<rparr>, w1)))"

definition getCurrentRequestCount :: "RateLimiter \<Rightarrow> int" where
  "getCurrentRequestCount rl = int (length (requestTimestamps rl))"

section \<open>Messages, statuses and backends (core/types.ts)\<close>

text \<open>
  \<open>lastAttempt\<close> is the \<^verbatim>\<open>Date\<close> as its millisecond stamp; \<open>errorText\<close> is the optional
  field \<^verbatim>\<open>error\<close>. A backend is its name and what its \<^verbatim>\<open>send\<close> answers to a message in
  a given world: a status or an error. The answer may depend on everything that happened
  before (the world holds the log of earlier calls), so flaky and stateful backends are
  covered. \<^verbatim>\<open>isAvailable\<close> is not used by the service and is left out. \<open>invoke\<close> is a call
  of \<^verbatim>\<open>provider.send(message)\<close>: it logs the call.
\<close>

datatype email_status_type = PENDING | SENT | FAILED

record EmailMessage =
  msg_id :: string
  msg_to :: string
  msg_from :: string
  msg_subject :: string
  msg_body :: string
  msg_metadata :: "(string \<times> string) list option"

record EmailStatus =
  messageId :: string
  status :: email_status_type
  provider :: string
  attempts :: int
  lastAttempt :: int
  errorText :: "string option"

record EmailProvider =
  name :: string
  send :: "EmailMessage \<Rightarrow> world \<Rightarrow> js_error + EmailStatus"

definition invoke :: "EmailProvider \<Rightarrow> EmailMessage \<Rightarrow> world \<Rightarrow> (js_error + EmailStatus) \<times> world" where
  "invoke p m w = (send p m w, w\<lparr>sendLog := sendLog w @ [(name p, msg_id m)]\<rparr>)"

section \<open>Configuration (core/types.ts, core/constants.ts)\<close>

text \<open>
  \<^verbatim>\<open>EmailServiceConfig\<close> holds \<^verbatim>\<open>Partial\<close> configurations: every field may be absent
  (\<open>None\<close>), and so may the list of providers for a caller that is not type-checked.
  The defaults are those of \<^verbatim>\<open>DEFAULT_CONFIG\<close>.
\<close>

record RetryConfig =
  maxAttempts :: int
  initialDelay :: real
  maxDelay :: real
  backoffFactor :: real

record PartialRetryConfig =
  cfg_maxAttempts :: "int option"
  cfg_initialDelay :: "real option"
  cfg_maxDelay :: "real option"
  cfg_backoffFactor :: "real option"

record PartialRateLimiterConfig =
  cfg_maxRequests :: "int option"
  cfg_timeWindow :: "int option"

record PartialCircuitBreakerConfig =
  cfg_failureThreshold :: "int option"
  cfg_resetTimeout :: "int option"

record EmailServiceConfig =
  cfg_providers :: "EmailProvider list option"
  cfg_retryConfig :: "PartialRetryConfig option"
  cfg_rateLimiterConfig :: "PartialRateLimiterConfig option"
  cfg_circuitBreakerConfig :: "PartialCircuitBreakerConfig option"

definition DEFAULT_RETRY :: RetryConfig where
  "DEFAULT_RETRY = \<lparr>maxAttempts = 3, initialDelay = 1000, maxDelay = 10000, backoffFactor = 2\<rparr>"

definition DEFAULT_MAX_REQUESTS :: int where "DEFAULT_MAX_REQUESTS = 10"
definition DEFAULT_TIME_WINDOW :: int where "DEFAULT_TIME_WINDOW = 1000"
definition DEFAULT_FAILURE_THRESHOLD :: int where "DEFAULT_FAILURE_THRESHOLD = 5"
definition DEFAULT_RESET_TIMEOUT :: int where "DEFAULT_RESET_TIMEOUT = 30000"
definition MAX_SUBJECT_LENGTH :: nat where "MAX_SUBJECT_LENGTH = 78"
definition MAX_BODY_LENGTH :: nat where "MAX_BODY_LENGTH = 1000000"

text \<open>An object spread \<^verbatim>\<open>{default, ...partial}\<close>, field by field.\<close>

definition orDefault :: "'a option \<Rightarrow> 'a \<Rightarrow> 'a" where
  "orDefault v d = (case v of None \<Rightarrow> d | Some x \<Rightarrow> x)"

section \<open>Input validation\<close>

text \<open>
  \<^verbatim>\<open>VALIDATION.EMAIL_REGEX\<close> is
  \<^verbatim>\<open>/^[a-zA-Z0-9._%+-]+@[a-zA-Z0-9.-]+\.[a-zA-Z]{2,}$/\<close>. Each part of the pattern maps a
  string to the list of remainders it can leave: \<open>plus cls\<close> is one or more characters of a
  class, \<open>lit\<close> a literal character, \<open>one\<close> a single character of a class; \<open>{2,}\<close> is one
  followed by one or more. The pattern matches when the parts in sequence can leave the
  empty remainder.
\<close>

definition lowerChars :: string where "lowerChars = ''abcdefghijklmnopqrstuvwxyz''"
definition upperChars :: string where "upperChars = ''ABCDEFGHIJKLMNOPQRSTUVWXYZ''"
definition digitChars :: string where "digitChars = ''0123456789''"

definition localClass :: "char \<Rightarrow> bool" where
  "localClass c = (c \<in> set (lowerChars @ upperChars @ digitChars @ ''._%+-''))"

definition domainClass :: "char \<Rightarrow> bool" where
  "domainClass c = (c \<in> set (lowerChars @ upperChars @ digitChars @ ''.-''))"

definition letterClass :: "char \<Rightarrow> bool" where
  "letterClass c = (c \<in> set (lowerChars @ upperChars))"

fun plus :: "(char \<Rightarrow> bool) \<Rightarrow> string \<Rightarrow> string list" where
  "plus cls [] = []"
| "plus cls (c # cs) = (if cls c then cs # plus cls cs else [])"

fun lit :: "char \<Rightarrow> string \<Rightarrow> string list" where
  "lit k [] = []"
| "lit k (c # cs) = (if c = k then [cs] else [])"

fun one :: "(char \<Rightarrow> bool) \<Rightarrow> string \<Rightarrow> string list" where
  "one cls [] = []"
| "one cls (c # cs) = (if cls c then [cs] else [])"

definition andThen :: "string list \<Rightarrow> (string \<Rightarrow> string list) \<Rightarrow> string list" where
  "andThen rs f = concat (map f rs)"

definition EMAIL_REGEX_test :: "string \<Rightarrow> bool" where
  "EMAIL_REGEX_test s =
     ([] \<in> set
       (andThen (andThen (andThen (andThen (andThen (plus localClass s)
          (lit CHR ''@'')) (plus domainClass)) (lit CHR ''.'')) (one letterClass)) (plus letterClass)))"

definition validateEmailInput :: "string \<Rightarrow> string \<Rightarrow> string \<Rightarrow> string \<Rightarrow> js_error option" where
  "validateEmailInput toAddr fromAddr subject body =
     (if \<not> EMAIL_REGEX_test toAddr \<or> \<not> EMAIL_REGEX_test fromAddr
      then Some (EmailError ''Invalid email address format'' INVALID_CONFIG None)
      else if length subject > MAX_SUBJECT_LENGTH
      then Some (EmailError ''Subject exceeds maximum length of 78 characters'' INVALID_CONFIG None)
      else if length body > MAX_BODY_LENGTH
      then Some (EmailError ''Body exceeds maximum length of 1000000 characters'' INVALID_CONFIG None)
      else None)"

text \<open>
  \<^verbatim>\<open>validateConfig\<close>: \<^verbatim>\<open>config.retryConfig?.maxAttempts && ... < 1\<close> holds for a number
  that is truthy (not \<open>0\<close>) and below \<open>1\<close>. \<open>Some err\<close> is a throw.
\<close>

definition validateConfig :: "EmailServiceConfig \<Rightarrow> js_error option" where
  "validateConfig config =
     (if (case cfg_providers config of None \<Rightarrow> True | Some ps \<Rightarrow> length ps = 0)
      then Some (EmailError ''At least one provider must be configured'' INVALID_CONFIG None)
      else if (case cfg_retryConfig config of
                 None \<Rightarrow> False
               | Some rc \<Rightarrow> (case cfg_maxAttempts rc of
                              None \<Rightarrow> False
                            | Some m \<Rightarrow> m \<noteq> 0 \<and> m < 1))
      then Some (EmailError ''Max attempts must be at least 1'' INVALID_CONFIG None)
      else None)"

section \<open>The retry queue (utils/Queue.ts)\<close>

text \<open>
  An item holds its message, its dispatch function, its attempt counter and the
  \<^verbatim>\<open>resolve\<close> and \<^verbatim>\<open>reject\<close> of the promise \<^verbatim>\<open>enqueue\<close> returned; the model keeps
  the promises in a list and the item holds the index of its own. A promise that is
  settled stays as it is. The field \<^verbatim>\<open>queue\<close> is \<open>items\<close>. The dispatch function
  threads a state of any type \<open>'c\<close>.
\<close>

datatype settlement = Pending | Resolved EmailStatus | Rejected js_error

record 'c QueueItem =
  item_message :: EmailMessage
  item_process :: "EmailMessage \<Rightarrow> 'c \<Rightarrow> (js_error + EmailStatus) \<times> 'c"
  item_attempts :: int
  item_promise :: nat

record 'c Queue =
  items :: "'c QueueItem list"
  processing :: bool
  queue_maxAttempts :: int
  promises :: "settlement list"

definition new_Queue :: "int \<Rightarrow> 'c Queue" where
  "new_Queue m = \<lparr>items = [], processing = False, queue_maxAttempts = m, promises = []\<rparr>"

definition settle :: "nat \<Rightarrow> settlement \<Rightarrow> settlement list \<Rightarrow> settlement list" where
  "settle p v ps = (if p < length ps \<and> ps ! p = Pending then ps[p := v] else ps)"

definition promiseState :: "'c Queue \<Rightarrow> nat \<Rightarrow> settlement" where
  "promiseState q p = (if p < length (promises q) then promises q ! p else Pending)"

definition enqueue_push ::
  "EmailMessage \<Rightarrow> (EmailMessage \<Rightarrow> 'c \<Rightarrow> (js_error + EmailStatus) \<times> 'c) \<Rightarrow> 'c Queue \<Rightarrow> nat \<times> 'c Queue" where
  "enqueue_push msg processor q =
     (length (promises q),
      q\<lparr>items := items q @
             [\<lparr>item_message = msg, item_process = processor, item_attempts = 0,
               item_promise = length (promises q)\<rparr>],
        promises := promises q @ [Pending]\<rparr>)"

text \<open>\<^verbatim>\<open>this.queue.shift()\<close>; on an empty array it does nothing.\<close>

definition shift :: "'c Queue \<Rightarrow> 'c Queue" where
  "shift q = q\<lparr>items := tl (items q)\<rparr>"

text \<open>
  The part of \<^verbatim>\<open>process\<close> that runs when the awaited dispatch of the head has returned
  or thrown (lines 108-122): resolve, or count the attempt and move the head to the tail,
  or reject; then the \<^verbatim>\<open>shift\<close> that follows the \<^verbatim>\<open>try\<close> in every case. The queue it
  works on is the queue as it is at that moment, with whatever was enqueued meanwhile.
\<close>

definition finishItem :: "'c Queue \<Rightarrow> (js_error + EmailStatus) \<Rightarrow> 'c Queue" where
  "finishItem q r =
     (case items q of
        [] \<Rightarrow> q
      | item # rest \<Rightarrow>
          shift
            (case r of
               Inr st \<Rightarrow> q\<lparr>promises := settle (item_promise item) (Resolved st) (promises q)\<rparr>
             | Inl err \<Rightarrow>
                 (if item_attempts item < queue_maxAttempts q
                  then q\<lparr>items := rest @ [item\<lparr>item_attempts := item_attempts item + 1\<rparr>]\<rparr>
                  else q\<lparr>promises := settle (item_promise item) (Rejected err) (promises q)\<rparr>)))"

text \<open>
  \<^verbatim>\<open>process\<close>, with its re-invocation through \<^verbatim>\<open>setImmediate\<close> as the recursive call:
  the queue is drained until it is empty. Every round removes an item, so the loop ends.
\<close>

function process :: "'c Queue \<Rightarrow> 'c \<Rightarrow> 'c Queue \<times> 'c" where
  "process q c =
     (case items q of
        [] \<Rightarrow> (q\<lparr>processing := False\<rparr>, c)
      | item # rest \<Rightarrow>
          (case item_process item (item_message item) c of
             (r, c1) \<Rightarrow> process (finishItem (q\<lparr>processing := True\<rparr>) r) c1))"
  by pat_completeness auto
termination
  by (relation "measure (\<lambda>(q, c). length (items q))")
     (auto simp: finishItem_def shift_def split: sum.splits)

declare process.simps [simp del]

text \<open>
  \<^verbatim>\<open>enqueue\<close>: the push, and the start of \<^verbatim>\<open>process\<close> when none is running. The result
  is the index of the promise returned, and the queue and the state once the queue has run
  dry.
\<close>

definition enqueue ::
  "EmailMessage \<Rightarrow> (EmailMessage \<Rightarrow> 'c \<Rightarrow> (js_error + EmailStatus) \<times> 'c) \<Rightarrow> 'c Queue \<Rightarrow> 'c
     \<Rightarrow> nat \<times> 'c Queue \<times> 'c" where
  "enqueue msg processor q c =
     (case enqueue_push msg processor q of
        (p, q1) \<Rightarrow>
          (if \<not> processing q1 then (case process q1 c of (q2, c2) \<Rightarrow> (p, q2, c2))
           else (p, q1, c)))"

definition getQueueLength :: "'c Queue \<Rightarrow> int" where
  "getQueueLength q = int (length (items q))"

definition clear :: "'c Queue \<Rightarrow> 'c Queue" where
  "clear q = q\<lparr>items := [], processing := False\<rparr>"

section \<open>EmailService (core/EmailService.ts)\<close>

text \<open>
  The part of the service the dispatch function works on (\<open>ServiceCore\<close>) is kept apart
  from the queue, whose items hold that function. The map of breakers is keyed by provider
  name, as the \<^verbatim>\<open>Map\<close> of the source is.
\<close>

record ServiceCore =
  rateLimiter :: RateLimiter
  circuitBreakers :: "string \<rightharpoonup> CircuitBreaker"
  providers :: "EmailProvider list"
  retryConfig :: RetryConfig
  sentMessageIds :: "string set"

record EmailService =
  core :: ServiceCore
  queue :: "(ServiceCore \<times> world) Queue"
  metrics :: "string \<rightharpoonup> int"

definition SUCCESS_COUNTER :: string where "SUCCESS_COUNTER = ''email_send_success_total''"
definition FAILURE_COUNTER :: string where "FAILURE_COUNTER = ''email_send_failure_total''"
definition LATENCY_HISTOGRAM :: string where "LATENCY_HISTOGRAM = ''email_send_latency_seconds''"
definition QUEUE_SIZE_GAUGE :: string where "QUEUE_SIZE_GAUGE = ''email_queue_size''"

text \<open>
  \<^verbatim>\<open>calculateBackoffDelay\<close> (lines 201-208): the delay is the number
  \<^verbatim>\<open>Math.min(initialDelay * Math.pow(backoffFactor, attempt - 1), maxDelay) * (0.75 + Math.random() * 0.5)\<close>,
  with one call of \<^verbatim>\<open>Math.random\<close>.
\<close>

definition calculateBackoffDelay :: "RetryConfig \<Rightarrow> int \<Rightarrow> world \<Rightarrow> js_number \<times> world" where
  "calculateBackoffDelay rc attempt w =
     (let delay = Math_min (Mul (Number (initialDelay rc))
                               (Math_pow (Number (backoffFactor rc)) (Number (of_int (attempt - 1)))))
                           (Number (maxDelay rc))
      in case Math_random w of (r, w1) \<Rightarrow> (Mul delay (Add (Number 0.75) (Mul (Number r) (Number 0.5))), w1))"

text \<open>
  The \<^verbatim>\<open>for\<close> loop over the providers in one attempt (lines 165-187). It returns the
  status of the first backend that succeeds, if any, and the loop variables
  \<^verbatim>\<open>lastError\<close> and \<^verbatim>\<open>lastProviderName\<close>. A breaker that is open is skipped by
  \<^verbatim>\<open>continue\<close>, without a call of \<^verbatim>\<open>execute\<close>. A name without a breaker cannot occur in
  a service built by the constructor; there \<^verbatim>\<open>circuitBreaker.getState()\<close> would throw a
  \<^verbatim>\<open>TypeError\<close> inside the \<^verbatim>\<open>try\<close>, which the \<^verbatim>\<open>catch\<close> records.
\<close>

fun tryProviders ::
  "EmailProvider list \<Rightarrow> EmailMessage \<Rightarrow> int \<Rightarrow> js_error option \<Rightarrow> string option
     \<Rightarrow> ServiceCore \<Rightarrow> world
     \<Rightarrow> EmailStatus option \<times> js_error option \<times> string option \<times> ServiceCore \<times> world" where
  "tryProviders [] msg attemptNo lastError lastProviderName c w =
     (None, lastError, lastProviderName, c, w)"
| "tryProviders (p # ps) msg attemptNo lastError lastProviderName c w =
     (case circuitBreakers c (name p) of
        None \<Rightarrow>
          tryProviders ps msg attemptNo (Some (Error ''TypeError'')) (Some (name p)) c w
      | Some circuitBreaker \<Rightarrow>
          (if getState circuitBreaker = OPEN
           then tryProviders ps msg attemptNo lastError (Some (name p)) c w
           else (case execute circuitBreaker (invoke p msg) w of
                   (Inr st, cb1, w1) \<Rightarrow>
                     (case getCurrentTime w1 of
                        (now, w2) \<Rightarrow>
                          (Some (st\<lparr>attempts := attemptNo, lastAttempt := now\<rparr>),
                           lastError, Some (name p),
                           c\<lparr>circuitBreakers := (circuitBreakers c)(name p \<mapsto> cb1),
                             sentMessageIds := insert (msg_id msg) (sentMessageIds c)\<rparr>,
                           w2))
                 | (Inl err, cb1, w1) \<Rightarrow>
                     tryProviders ps msg attemptNo (Some err) (Some (name p))
                       (c\<lparr>circuitBreakers := (circuitBreakers c)(name p \<mapsto> cb1)\<rparr>) w1)))"

text \<open>A non-negative integer in a template string.\<close>

function showNat :: "nat \<Rightarrow> string" where
  "showNat n = (if n < 10 then [digitChars ! n] else showNat (n div 10) @ [digitChars ! (n mod 10)])"
  by pat_completeness auto
termination
  by (relation "measure id") auto

declare showNat.simps [simp del]

definition allProvidersFailed :: "int \<Rightarrow> string option \<Rightarrow> js_error option \<Rightarrow> js_error" where
  "allProvidersFailed attemptNo lastProviderName lastError =
     EmailError
       (''All providers failed after '' @ showNat (nat attemptNo) @ '' attempts'' @
        (case lastProviderName of
           None \<Rightarrow> []
         | Some n \<Rightarrow> if n = [] then [] else '' (last provider: '' @ n @ '')'') @
        '': '' @
        (case lastError of None \<Rightarrow> ''undefined'' | Some e \<Rightarrow> message e))
       ALL_PROVIDERS_FAILED lastError"

text \<open>
  The \<^verbatim>\<open>while\<close> loop of \<^verbatim>\<open>processEmail\<close> (lines 161-198), from its loop variables.
  \<^verbatim>\<open>this.retryConfig\<close> and \<^verbatim>\<open>this.providers\<close> are never assigned after construction and
  are passed as they are. The result carries the value of \<^verbatim>\<open>attempts\<close> at the exit.
\<close>

function attemptLoop ::
  "RetryConfig \<Rightarrow> EmailProvider list \<Rightarrow> EmailMessage \<Rightarrow> int \<Rightarrow> js_error option \<Rightarrow> string option
     \<Rightarrow> ServiceCore \<Rightarrow> world \<Rightarrow> ((js_error + EmailStatus) \<times> int) \<times> ServiceCore \<times> world" where
  "attemptLoop rc ps msg attemptNo lastError lastProviderName c w =
     (if attemptNo < maxAttempts rc then
        (case calculateBackoffDelay rc (attemptNo + 1) w of
           (delay, w1) \<Rightarrow>
             (case tryProviders ps msg (attemptNo + 1) lastError lastProviderName c w1 of
                (Some st, lastError1, lastName1, c1, w2) \<Rightarrow> ((Inr st, attemptNo + 1), c1, w2)
              | (None, lastError1, lastName1, c1, w2) \<Rightarrow>
                  attemptLoop rc ps msg (attemptNo + 1) lastError1 lastName1 c1
                    (if attemptNo + 1 < maxAttempts rc then setTimeout delay w2 else w2)))
      else ((Inl (allProvidersFailed attemptNo lastProviderName lastError), attemptNo), c, w))"
  by pat_completeness auto
termination
  by (relation "measure (\<lambda>(rc, ps, msg, attemptNo, lastError, lastName, c, w). nat (maxAttempts rc - attemptNo))") auto

declare attemptLoop.simps [simp del]

definition processEmail ::
  "EmailMessage \<Rightarrow> ServiceCore \<times> world \<Rightarrow> (js_error + EmailStatus) \<times> ServiceCore \<times> world" where
  "processEmail msg cw =
     (case cw of
        (c, w) \<Rightarrow>
          (case acquire (rateLimiter c) w of
             (Inl err, rl1, w1) \<Rightarrow>
               (Inl (if message err = ''RATE_LIMIT''
                     then EmailError ''Rate limit exceeded'' RATE_LIMIT None else err),
                c\<lparr>rateLimiter := rl1\<rparr>, w1)
           | (Inr u, rl1, w1) \<Rightarrow>
               (case attemptLoop (retryConfig c) (providers c) msg 0 None None
                       (c\<lparr>rateLimiter := rl1\<rparr>) w1 of
                  ((r, n), c2, w2) \<Rightarrow> (r, c2, w2))))"

definition counter :: "(string \<rightharpoonup> int) \<Rightarrow> string \<Rightarrow> int" where
  "counter m k = (case m k of None \<Rightarrow> 0 | Some v \<Rightarrow> v)"

definition recordSuccess :: "int \<Rightarrow> EmailService \<Rightarrow> world \<Rightarrow> EmailService \<times> world" where
  "recordSuccess startTime s w =
     (case Date_now w of
        (now, w1) \<Rightarrow>
          (let latency = now - startTime;
               m1 = (metrics s)(SUCCESS_COUNTER \<mapsto> counter (metrics s) SUCCESS_COUNTER + 1);
               m2 = m1(LATENCY_HISTOGRAM \<mapsto> counter m1 LATENCY_HISTOGRAM + latency)
           in (s\<lparr>metrics := m2\<rparr>, w1)))"

definition recordFailure :: "EmailService \<Rightarrow> EmailService" where
  "recordFailure s =
     s\<lparr>metrics := (metrics s)(FAILURE_COUNTER \<mapsto> counter (metrics s) FAILURE_COUNTER + 1)\<rparr>"

text \<open>
  \<^verbatim>\<open>sendEmail\<close>, called while no other submission is in flight and followed until the
  queue is idle. The promise it returns is resolved, rejected, or pending with nothing left
  that could settle it (\<open>NeverSettles\<close>).
\<close>

datatype outcome = Returned EmailStatus | Threw js_error | NeverSettles

definition sendEmail ::
  "string \<Rightarrow> string \<Rightarrow> string \<Rightarrow> string \<Rightarrow> (string \<times> string) list option
     \<Rightarrow> EmailService \<Rightarrow> world \<Rightarrow> outcome \<times> EmailService \<times> world" where
  "sendEmail toAddr fromAddr subject body metadata s w =
     (case validateEmailInput toAddr fromAddr subject body of
        Some err \<Rightarrow> (Threw err, s, w)
      | None \<Rightarrow>
          (case uuidv4 w of
             (newId, w1) \<Rightarrow>
               (let msg = \<lparr>msg_id = newId, msg_to = toAddr, msg_from = fromAddr,
                           msg_subject = subject, msg_body = body, msg_metadata = metadata\<rparr>
                in if msg_id msg \<in> sentMessageIds (core s)
                   then (Threw (EmailError ''Duplicate message ID detected'' DUPLICATE_MESSAGE None),
                         s, w1)
                   else
                     (case Date_now w1 of
                        (startTime, w2) \<Rightarrow>
                          (case enqueue msg processEmail (queue s) (core s, w2) of
                             (p, q1, c1, w3) \<Rightarrow>
                               (let s1 = s\<lparr>core := c1, queue := q1\<rparr>
                                in case promiseState q1 p of
                                     Resolved st \<Rightarrow>
                                       (case recordSuccess startTime s1 w3 of
                                          (s2, w4) \<Rightarrow> (Returned st, s2, w4))
                                   | Rejected err \<Rightarrow> (Threw err, recordFailure s1, w3)
                                   | Pending \<Rightarrow> (NeverSettles, s1, w3)))))))"

definition resetCircuitBreakers :: "EmailService \<Rightarrow> EmailService" where
  "resetCircuitBreakers s =
     s\<lparr>core := (core s)\<lparr>circuitBreakers := map_option reset \<circ> circuitBreakers (core s)\<rparr>\<rparr>"

definition clearQueue :: "EmailService \<Rightarrow> EmailService" where
  "clearQueue s = s\<lparr>queue := clear (queue s), metrics := (metrics s)(QUEUE_SIZE_GAUGE \<mapsto> 0)\<rparr>"

definition clearSentMessageIds :: "EmailService \<Rightarrow> EmailService" where
  "clearSentMessageIds s = s\<lparr>core := (core s)\<lparr>sentMessageIds := {}\<rparr>\<rparr>"

definition getProviderStatus :: "EmailService \<Rightarrow> string \<rightharpoonup> circuit_state" where
  "getProviderStatus s = map_option getState \<circ> circuitBreakers (core s)"

text \<open>
  The constructor. A spread \<^verbatim>\<open>{...defaults, ...partial}\<close> takes each field from the
  partial configuration when it is there. Every provider gets a breaker of its own; two
  providers of one name share the entry of the map.
\<close>

definition new_EmailService :: "EmailServiceConfig \<Rightarrow> js_error + EmailService" where
  "new_EmailService config =
     (case validateConfig config of
        Some err \<Rightarrow> Inl err
      | None \<Rightarrow>
          (let ps = orDefault (cfg_providers config) [];
               rc = (case cfg_retryConfig config of
                       None \<Rightarrow> DEFAULT_RETRY
                     | Some r \<Rightarrow>
                         \<lparr>maxAttempts = orDefault (cfg_maxAttempts r) (maxAttempts DEFAULT_RETRY),
                          initialDelay = orDefault (cfg_initialDelay r) (initialDelay DEFAULT_RETRY),
                          maxDelay = orDefault (cfg_maxDelay r) (maxDelay DEFAULT_RETRY),
                          backoffFactor = orDefault (cfg_backoffFactor r) (backoffFactor DEFAULT_RETRY)\<rparr>);
               rl = (case cfg_rateLimiterConfig config of
                       None \<Rightarrow> new_RateLimiter DEFAULT_MAX_REQUESTS DEFAULT_TIME_WINDOW
                     | Some r \<Rightarrow>
                         new_RateLimiter (orDefault (cfg_maxRequests r) DEFAULT_MAX_REQUESTS)
                           (orDefault (cfg_timeWindow r) DEFAULT_TIME_WINDOW));
               cb = (case cfg_circuitBreakerConfig config of
                       None \<Rightarrow> new_CircuitBreaker DEFAULT_FAILURE_THRESHOLD DEFAULT_RESET_TIMEOUT
                     | Some r \<Rightarrow>
                         new_CircuitBreaker (orDefault (cfg_failureThreshold r) DEFAULT_FAILURE_THRESHOLD)
                           (orDefault (cfg_resetTimeout r) DEFAULT_RESET_TIMEOUT))
           in Inr \<lparr>core = \<lparr>rateLimiter = rl,
                            circuitBreakers = fold (\<lambda>p m. m(name p \<mapsto> cb)) ps Map.empty,
                            providers = ps, retryConfig = rc, sentMessageIds = {}\<rparr>,
                    queue = new_Queue (maxAttempts rc),
                    metrics = [SUCCESS_COUNTER \<mapsto> 0, FAILURE_COUNTER \<mapsto> 0, QUEUE_SIZE_GAUGE \<mapsto> 0]\<rparr>))"

section \<open>Sequences of calls and reachable breaker states\<close>

text \<open>Calls of \<^verbatim>\<open>execute\<close> one after the other on one breaker.\<close>

fun executeAll ::
  "(world \<Rightarrow> (js_error + 'a) \<times> world) list \<Rightarrow> CircuitBreaker \<Rightarrow> world \<Rightarrow> CircuitBreaker \<times> world" where
  "executeAll [] cb w = (cb, w)"
| "executeAll (fn # fns) cb w = (case execute cb fn w of (r, cb1, w1) \<Rightarrow> executeAll fns cb1 w1)"

text \<open>An operation that throws in every world it is run in.\<close>

definition alwaysFails :: "(world \<Rightarrow> (js_error + 'a) \<times> world) \<Rightarrow> bool" where
  "alwaysFails fn = (\<forall>w. isl (fst (fn w)))"

text \<open>
  The states of a breaker built with \<open>threshold\<close> and \<open>timeout\<close>: the initial one, and
  every state one block of \<^verbatim>\<open>execute\<close> or a \<^verbatim>\<open>reset\<close> leads to from a reachable one.
\<close>

inductive reachable :: "int \<Rightarrow> int \<Rightarrow> CircuitBreaker \<Rightarrow> bool" for threshold :: int and timeout :: int where
  reach_new: "reachable threshold timeout (new_CircuitBreaker threshold timeout)"
| reach_guard: "reachable threshold timeout cb \<Longrightarrow> execute_guard cb w = (Inr cb1, w1)
     \<Longrightarrow> reachable threshold timeout cb1"
| reach_success: "reachable threshold timeout cb \<Longrightarrow> reachable threshold timeout (execute_onSuccess cb)"
| reach_failure: "reachable threshold timeout cb \<Longrightarrow> execute_onFailure cb w = (cb1, w1)
     \<Longrightarrow> reachable threshold timeout cb1"
| reach_reset: "reachable threshold timeout cb \<Longrightarrow> reachable threshold timeout (reset cb)"

text \<open>What holds in every reachable state (lemma \<open>reachable_invariant\<close> below).\<close>

definition breakerInvariant :: "CircuitBreaker \<Rightarrow> bool" where
  "breakerInvariant cb =
     (if state cb = CLOSED then True
      else failureCount cb \<ge> failureThreshold cb \<and> lastFailureTime cb \<noteq> None)"

section \<open>The window of the rate limiter, as the specification counts it\<close>

text \<open>
  The count the specification speaks of: the recorded stamps inside the trailing window
  \<open>(now - timeWindow, now]\<close>.
\<close>

definition admittedInWindow :: "int \<Rightarrow> RateLimiter \<Rightarrow> int" where
  "admittedInWindow now rl =
     int (length (filter (\<lambda>t. now - timeWindow rl < t \<and> t \<le> now) (requestTimestamps rl)))"

section \<open>Fixtures\<close>

text \<open>
  After tests/EmailService.test.ts: a world whose injected clock is given, with \<^verbatim>\<open>uuidv4\<close>
  mocked to \<^verbatim>\<open>'test-123'\<close>, \<^verbatim>\<open>Math.random\<close> to \<open>1/2\<close> and \<^verbatim>\<open>Date.now\<close> to \<open>0\<close>.
\<close>

definition testWorld :: "(nat \<Rightarrow> int) \<Rightarrow> world" where
  "testWorld clock =
     \<lparr>clockAt = clock, clockCalls = 0, randomAt = (\<lambda>k. 1/2), randomCalls = 0,
      uuidAt = (\<lambda>k. ''test-123''), uuidCalls = 0, dateNowAt = (\<lambda>k. 0), dateNowCalls = 0,
      sendLog = [], timerLog = []\<rparr>"

text \<open>A clock that reads \<open>0\<close> at its first call and \<open>5000\<close> afterwards.\<close>

definition zeroThenLate :: "nat \<Rightarrow> int" where
  "zeroThenLate k = (if k = 0 then 0 else 5000)"

text \<open>Operations that fail or succeed and leave a trace in the log when they run.\<close>

definition failingOp :: "world \<Rightarrow> (js_error + unit) \<times> world" where
  "failingOp w = (Inl (EmailError ''Provider failed'' PROVIDER_ERROR None),
                  w\<lparr>sendLog := sendLog w @ [(''op'', ''failed'')]\<rparr>)"

definition succeedingOp :: "world \<Rightarrow> (js_error + unit) \<times> world" where
  "succeedingOp w = (Inr (), w\<lparr>sendLog := sendLog w @ [(''op'', ''succeeded'')]\<rparr>)"

definition halfOpenBreaker :: CircuitBreaker where
  "halfOpenBreaker =
     \<lparr>state = HALF_OPEN, failureCount = 1, lastFailureTime = Some 1000,
      failureThreshold = 1, resetTimeout = 1000\<rparr>"

text \<open>The message and the status of the tests.\<close>

definition testMessage :: "string \<Rightarrow> EmailMessage" where
  "testMessage i =
     \<lparr>msg_id = i, msg_to = ''test@example.com'', msg_from = ''sender@example.com'',
      msg_subject = ''Test Subject'', msg_body = ''Test Body'', msg_metadata = None\<rparr>"

definition successStatus :: "EmailMessage \<Rightarrow> EmailStatus" where
  "successStatus m =
     \<lparr>messageId = msg_id m, status = SENT, provider = ''MockProvider1'', attempts = 1,
      lastAttempt = 1000, errorText = None\<rparr>"

text \<open>Dispatch functions for a queue on its own; the state they thread lists the ids dispatched.\<close>

definition failingDispatch :: "EmailMessage \<Rightarrow> string list \<Rightarrow> (js_error + EmailStatus) \<times> string list" where
  "failingDispatch m dispatched = (Inl (Error ''dispatch failed''), dispatched @ [msg_id m])"

definition succeedingDispatch :: "EmailMessage \<Rightarrow> string list \<Rightarrow> (js_error + EmailStatus) \<times> string list" where
  "succeedingDispatch m dispatched = (Inr (successStatus m), dispatched @ [msg_id m])"

text \<open>A queue with \<open>maxAttempts = 3\<close> that holds \<open>A\<close> (dispatch fails) and \<open>B\<close> (dispatch succeeds).\<close>

definition queueAB :: "(string list) Queue" where
  "queueAB =
     snd (enqueue_push (testMessage ''B'') succeedingDispatch
       (snd (enqueue_push (testMessage ''A'') failingDispatch (new_Queue 3))))"

text \<open>Backends: \<^verbatim>\<open>mockRejectedValue(error)\<close> and \<^verbatim>\<open>mockResolvedValue(successStatus)\<close>.\<close>

definition failingProvider :: EmailProvider where
  "failingProvider =
     \<lparr>name = ''MockProvider1'',
      send = (\<lambda>m w. Inl (EmailError ''Provider failed'' PROVIDER_ERROR None))\<rparr>"

definition healthyProvider :: EmailProvider where
  "healthyProvider = \<lparr>name = ''MockProvider1'', send = (\<lambda>m w. Inr (successStatus m))\<rparr>"

text \<open>Configurations.\<close>

definition zeroAttemptsConfig :: EmailServiceConfig where
  "zeroAttemptsConfig =
     \<lparr>cfg_providers = Some [healthyProvider],
      cfg_retryConfig = Some \<lparr>cfg_maxAttempts = Some 0, cfg_initialDelay = None,
                              cfg_maxDelay = None, cfg_backoffFactor = None\<rparr>,
      cfg_rateLimiterConfig = None, cfg_circuitBreakerConfig = None\<rparr>"

definition breakerConfig :: EmailServiceConfig where
  "breakerConfig =
     \<lparr>cfg_providers = Some [failingProvider], cfg_retryConfig = None,
      cfg_rateLimiterConfig = None,
      cfg_circuitBreakerConfig =
        Some \<lparr>cfg_failureThreshold = Some 2, cfg_resetTimeout = Some 1000\<rparr>\<rparr>"

definition healthyConfig :: EmailServiceConfig where
  "healthyConfig =
     \<lparr>cfg_providers = Some [healthyProvider], cfg_retryConfig = None,
      cfg_rateLimiterConfig = None, cfg_circuitBreakerConfig = None\<rparr>"

definition serviceOf :: "EmailServiceConfig \<Rightarrow> EmailService" where
  "serviceOf config = projr (new_EmailService config)"

text \<open>The submission every test makes.\<close>

definition submit :: "EmailService \<times> world \<Rightarrow> outcome \<times> EmailService \<times> world" where
  "submit sw =
     sendEmail ''test@example.com'' ''sender@example.com'' ''Test Subject'' ''Test Body'' None
       (fst sw) (snd sw)"

text \<open>
  The service and the world after two submissions to the service of \<open>breakerConfig\<close> at
  clock \<open>1000\<close> (lemma \<open>two_failed_submissions\<close> below).
\<close>

definition openService :: EmailService where
  "openService =
     (serviceOf breakerConfig)
       \<lparr>core := (core (serviceOf breakerConfig))
                 \<lparr>rateLimiter := \<lparr>requestTimestamps = [1000, 1000], maxRequests = 10, timeWindow = 1000\<rparr>,
                   circuitBreakers :=
                     [''MockProvider1'' \<mapsto>
                        \<lparr>state = OPEN, failureCount = 2, lastFailureTime = Some 1000,
                         failureThreshold = 2, resetTimeout = 1000\<rparr>]\<rparr>,
         queue := \<lparr>items = [], processing = False, queue_maxAttempts = 3,
                    promises = [Pending, Pending]\<rparr>\<rparr>"

text \<open>
  The delay of attempt \<open>k\<close> under the default retry settings while \<^verbatim>\<open>Math.random\<close>
  returns \<open>1/2\<close>: \<^verbatim>\<open>Math.min(1000 * Math.pow(2, k - 1), 10000) * (0.75 + 0.5 * 0.5)\<close>.
\<close>

definition defaultDelay :: "int \<Rightarrow> js_number" where
  "defaultDelay k =
     Mul (Math_min (Mul (Number 1000) (Math_pow (Number 2) (Number (of_int (k - 1))))) (Number 10000))
         (Add (Number 0.75) (Mul (Number 0.5) (Number 0.5)))"

definition openWorld :: world where
  "openWorld =
     (testWorld (\<lambda>k. 1000))
       \<lparr>clockCalls := 4, randomCalls := 6, uuidCalls := 2, dateNowCalls := 2,
         sendLog := [(''MockProvider1'', ''test-123''), (''MockProvider1'', ''test-123'')],
         timerLog := [defaultDelay 1, defaultDelay 2, defaultDelay 1, defaultDelay 2]\<rparr>"

section \<open>Circuit breaker: the invariant of the open states\<close>

lemmas breaker_defs =
  execute_def execute_guard_def execute_onFailure_def execute_onSuccess_def getCurrentTime_def
  new_CircuitBreaker_def reset_def testWorld_def failingOp_def succeedingOp_def

lemma breakerInvariant_new: "breakerInvariant (new_CircuitBreaker threshold timeout)"
  by (simp add: breakerInvariant_def new_CircuitBreaker_def)

lemma breakerInvariant_guard:
  "breakerInvariant cb \<Longrightarrow> execute_guard cb w = (Inr cb1, w1) \<Longrightarrow> breakerInvariant cb1"
  by (auto simp: breakerInvariant_def execute_guard_def getCurrentTime_def split: if_splits)

lemma breakerInvariant_success: "breakerInvariant cb \<Longrightarrow> breakerInvariant (execute_onSuccess cb)"
  by (auto simp: breakerInvariant_def execute_onSuccess_def)

lemma breakerInvariant_failure:
  "breakerInvariant cb \<Longrightarrow> execute_onFailure cb w = (cb1, w1) \<Longrightarrow> breakerInvariant cb1"
  by (auto simp: breakerInvariant_def execute_onFailure_def getCurrentTime_def Let_def split: if_splits)

lemma breakerInvariant_reset: "breakerInvariant (reset cb)"
  by (simp add: breakerInvariant_def reset_def)

lemma reachable_invariant: "reachable threshold timeout cb \<Longrightarrow> breakerInvariant cb"
proof (induction rule: reachable.induct)
  case reach_new
  show ?case by (rule breakerInvariant_new)
next
  case (reach_guard cb w cb1 w1)
  then show ?case by (blast intro: breakerInvariant_guard)
next
  case (reach_success cb)
  then show ?case by (blast intro: breakerInvariant_success)
next
  case (reach_failure cb w cb1 w1)
  then show ?case by (blast intro: breakerInvariant_failure)
next
  case (reach_reset cb)
  show ?case by (rule breakerInvariant_reset)
qed

lemma reachable_execute:
  assumes "reachable threshold timeout cb" and "execute cb fn w = (r, cb1, w1)"
  shows "reachable threshold timeout cb1"
  using assms
  by (auto simp: execute_def split: prod.splits sum.splits
           intro: reach_guard reach_success reach_failure)

lemma reachable_config:
  "reachable threshold timeout cb \<Longrightarrow> failureThreshold cb = threshold \<and> resetTimeout cb = timeout"
  by (induction rule: reachable.induct)
     (auto simp: new_CircuitBreaker_def execute_guard_def execute_onSuccess_def execute_onFailure_def
        reset_def getCurrentTime_def Let_def split: if_splits)

lemma failure_reopens:
  assumes "breakerInvariant cb" and "state cb \<noteq> CLOSED"
  shows "state (fst (execute_onFailure cb w)) = OPEN"
  using assms
  by (auto simp: breakerInvariant_def execute_onFailure_def getCurrentTime_def Let_def split: if_splits)

text \<open>
  Claim C10. In every state a breaker can reach from its initial closed state through the
  steps of \<^verbatim>\<open>execute\<close> and through \<^verbatim>\<open>reset\<close>, an open or half-open breaker has
  \<open>failureCount \<ge> failureThreshold\<close> and a \<open>lastFailureTime\<close> that is not null; so a failure
  of a half-open trial always puts the breaker back to open: the threshold test in the
  \<^verbatim>\<open>catch\<close> branch cannot leave it half-open. The steps are taken one by one, so the
  half-open state in the middle of a call is a reachable state too, also when another call
  or a reset happens while the operation is awaited. The property needs no lower bound on
  \<open>failureThreshold\<close>.
\<close>

theorem open_states_hold_threshold:
  assumes "reachable threshold timeout cb"
  shows "(state cb = OPEN \<or> state cb = HALF_OPEN \<longrightarrow>
            failureCount cb \<ge> failureThreshold cb \<and> lastFailureTime cb \<noteq> None)
       \<and> (state cb = HALF_OPEN \<longrightarrow> state (fst (execute_onFailure cb w)) = OPEN)
       \<and> (\<forall>cb1 w1 err w2.
            state cb \<noteq> CLOSED \<and> execute_guard cb w = (Inr cb1, w1) \<and> fn w1 = (Inl err, w2) \<longrightarrow>
              fst (execute cb fn w) = Inl err \<and> state (fst (snd (execute cb fn w))) = OPEN)"
proof -
  have inv: "breakerInvariant cb" using assms by (rule reachable_invariant)
  have a: "state cb = OPEN \<or> state cb = HALF_OPEN \<longrightarrow>
            failureCount cb \<ge> failureThreshold cb \<and> lastFailureTime cb \<noteq> None"
    using inv by (auto simp: breakerInvariant_def)
  have b: "state cb = HALF_OPEN \<longrightarrow> state (fst (execute_onFailure cb w)) = OPEN"
    using failure_reopens [OF inv] by simp
  have c: "fst (execute cb fn w) = Inl err \<and> state (fst (snd (execute cb fn w))) = OPEN"
    if nc: "state cb \<noteq> CLOSED" and g: "execute_guard cb w = (Inr cb1, w1)"
      and f: "fn w1 = (Inl err, w2)" for cb1 w1 err w2
  proof -
    have inv1: "breakerInvariant cb1" using inv g by (rule breakerInvariant_guard)
    have nc1: "state cb1 \<noteq> CLOSED"
      using nc g by (auto simp: execute_guard_def getCurrentTime_def split: if_splits)
    have "state (fst (execute_onFailure cb1 w2)) = OPEN"
      using failure_reopens [OF inv1 nc1] .
    then show ?thesis using g f by (simp add: execute_def split: prod.splits)
  qed
  show ?thesis using a b c by blast
qed

lemma halfOpenBreaker_reachable: "reachable 1 1000 halfOpenBreaker"
proof -
  let ?w = "testWorld (\<lambda>k. 1000)"
  let ?w2 = "testWorld (\<lambda>k. 2000)"
  have r0: "reachable 1 1000 (new_CircuitBreaker 1 1000)" by (rule reach_new)
  have f: "execute_onFailure (new_CircuitBreaker 1 1000) ?w =
             (\<lparr>state = OPEN, failureCount = 1, lastFailureTime = Some 1000,
               failureThreshold = 1, resetTimeout = 1000\<rparr>, ?w\<lparr>clockCalls := Suc 0\<rparr>)"
    by (simp add: breaker_defs)
  have r1: "reachable 1 1000 \<lparr>state = OPEN, failureCount = 1, lastFailureTime = Some 1000,
               failureThreshold = 1, resetTimeout = 1000\<rparr>"
    using reach_failure [OF r0 f] .
  have g: "execute_guard \<lparr>state = OPEN, failureCount = 1, lastFailureTime = Some 1000,
               failureThreshold = 1, resetTimeout = 1000\<rparr> ?w2 =
             (Inr halfOpenBreaker, ?w2\<lparr>clockCalls := Suc 0\<rparr>)"
    by (simp add: breaker_defs halfOpenBreaker_def)
  show ?thesis using reach_guard [OF r1 g] .
qed

theorem open_states_hold_threshold_witness:
  "reachable 1 1000 halfOpenBreaker
   \<and> state halfOpenBreaker = HALF_OPEN
   \<and> failureCount halfOpenBreaker \<ge> failureThreshold halfOpenBreaker
   \<and> lastFailureTime halfOpenBreaker \<noteq> None
   \<and> state (fst (execute_onFailure halfOpenBreaker (testWorld (\<lambda>k. 3000)))) = OPEN
   \<and> fst (execute halfOpenBreaker failingOp (testWorld (\<lambda>k. 3000)))
        = Inl (EmailError ''Provider failed'' PROVIDER_ERROR None)
   \<and> state (fst (snd (execute halfOpenBreaker failingOp (testWorld (\<lambda>k. 3000))))) = OPEN"
proof -
  let ?w = "testWorld (\<lambda>k. 3000)"
  have s: "state halfOpenBreaker = HALF_OPEN" by (simp add: halfOpenBreaker_def)
  have g: "execute_guard halfOpenBreaker ?w = (Inr halfOpenBreaker, ?w)"
    by (simp add: execute_guard_def halfOpenBreaker_def)
  have f: "failingOp ?w = (Inl (EmailError ''Provider failed'' PROVIDER_ERROR None),
             ?w\<lparr>sendLog := sendLog ?w @ [(''op'', ''failed'')]\<rparr>)"
    by (simp add: failingOp_def)
  show ?thesis
    using open_states_hold_threshold [OF halfOpenBreaker_reachable, of ?w failingOp]
      halfOpenBreaker_reachable s g f
    by auto
qed

section \<open>Circuit breaker: counting failures while closed\<close>

lemma executeAll_append:
  "executeAll (xs @ ys) cb w = (case executeAll xs cb w of (cb1, w1) \<Rightarrow> executeAll ys cb1 w1)"
  by (induction xs arbitrary: cb w) (auto split: prod.splits)

lemma execute_closed_failure:
  assumes "state cb = CLOSED" and "isl (fst (fn w))"
  shows "failureCount (fst (snd (execute cb fn w))) = failureCount cb + 1
       \<and> state (fst (snd (execute cb fn w))) =
           (if failureCount cb + 1 \<ge> failureThreshold cb then OPEN else CLOSED)
       \<and> failureThreshold (fst (snd (execute cb fn w))) = failureThreshold cb"
  using assms
  by (auto simp: execute_def execute_guard_def execute_onFailure_def getCurrentTime_def Let_def
           split: prod.splits sum.splits)

lemma execute_closed_success:
  assumes "state cb = CLOSED" and "fn w = (Inr r, w1)"
  shows "execute cb fn w = (Inr r, cb, w1)"
  using assms by (simp add: execute_def execute_guard_def execute_onSuccess_def)

lemma failures_below_threshold:
  assumes "state cb = CLOSED" and "\<forall>fn \<in> set fns. alwaysFails fn"
    and "failureCount cb + int (length fns) < failureThreshold cb"
  shows "state (fst (executeAll fns cb w)) = CLOSED
       \<and> failureCount (fst (executeAll fns cb w)) = failureCount cb + int (length fns)
       \<and> failureThreshold (fst (executeAll fns cb w)) = failureThreshold cb"
  using assms
proof (induction fns arbitrary: cb w)
  case Nil
  then show ?case by simp
next
  case (Cons fn fns)
  obtain r cb1 w1 where ex: "execute cb fn w = (r, cb1, w1)" by (cases "execute cb fn w") auto
  have fl: "isl (fst (fn w))" using Cons.prems(2) by (simp add: alwaysFails_def)
  have step: "failureCount cb1 = failureCount cb + 1 \<and> state cb1 = CLOSED
              \<and> failureThreshold cb1 = failureThreshold cb"
    using execute_closed_failure [of cb fn w] Cons.prems(1,3) fl ex by simp
  have "state (fst (executeAll fns cb1 w1)) = CLOSED
       \<and> failureCount (fst (executeAll fns cb1 w1)) = failureCount cb1 + int (length fns)
       \<and> failureThreshold (fst (executeAll fns cb1 w1)) = failureThreshold cb1"
    using Cons.IH [of cb1 w1] Cons.prems(2,3) step by simp
  then show ?case using ex step by simp
qed

lemma threshold_failure_opens:
  assumes "state cb = CLOSED" and "\<forall>fn \<in> set fns. alwaysFails fn" and "fns \<noteq> []"
    and "failureCount cb + int (length fns) = failureThreshold cb"
  shows "state (fst (executeAll fns cb w)) = OPEN"
proof -
  obtain ys fn where fns: "fns = ys @ [fn]" using assms(3) by (metis rev_exhaust)
  obtain cb1 w1 where e1: "executeAll ys cb w = (cb1, w1)" by (cases "executeAll ys cb w") auto
  have ysf: "\<forall>fn \<in> set ys. alwaysFails fn" using assms(2) fns by simp
  have lt: "failureCount cb + int (length ys) < failureThreshold cb" using assms(4) fns by simp
  have p: "state cb1 = CLOSED \<and> failureCount cb1 = failureCount cb + int (length ys)
           \<and> failureThreshold cb1 = failureThreshold cb"
    using failures_below_threshold [OF assms(1) ysf lt, of w] e1 by simp
  have fl: "isl (fst (fn w1))" using assms(2) fns by (simp add: alwaysFails_def)
  have "state (fst (snd (execute cb1 fn w1))) = OPEN"
    using execute_closed_failure [of cb1 fn w1] p fl assms(4) fns by simp
  then show ?thesis using fns e1 by (auto simp: executeAll_append split: prod.splits)
qed

text \<open>
  Claim C6, as amended. \<open>failureCount\<close> is only zeroed when the breaker leaves the half-open
  state or is reset; a success while closed changes nothing, so it does not zero the
  counter either. For a closed breaker that has counted \<open>c\<close> failures, \<open>n\<close> failing calls in
  a row leave it closed as long as \<open>c + n < failureThreshold\<close>, and the failing call that
  makes \<open>c + n = failureThreshold\<close> opens it. A breaker that is new, was reset or was closed
  by a half-open success has \<open>c = 0\<close>: fewer than \<open>failureThreshold\<close> failures keep it
  closed and the \<open>failureThreshold\<close>-th opens it.
\<close>

theorem closed_breaker_counts_failures:
  assumes "state cb = CLOSED" and "\<forall>fn \<in> set fns. alwaysFails fn"
  shows "(failureCount cb + int (length fns) < failureThreshold cb \<longrightarrow>
            state (fst (executeAll fns cb w)) = CLOSED)
       \<and> (fns \<noteq> [] \<and> failureCount cb + int (length fns) = failureThreshold cb \<longrightarrow>
            state (fst (executeAll fns cb w)) = OPEN)
       \<and> (\<forall>op r w1. op w = (Inr r, w1) \<longrightarrow> execute cb op w = (Inr r, cb, w1))"
proof (intro conjI impI allI)
  assume "failureCount cb + int (length fns) < failureThreshold cb"
  then show "state (fst (executeAll fns cb w)) = CLOSED"
    using failures_below_threshold [OF assms, of w] by simp
next
  assume "fns \<noteq> [] \<and> failureCount cb + int (length fns) = failureThreshold cb"
  then show "state (fst (executeAll fns cb w)) = OPEN"
    using threshold_failure_opens [OF assms, of w] by simp
next
  fix op :: "world \<Rightarrow> (js_error + 'b) \<times> world" and r w1
  assume "op w = (Inr r, w1)"
  then show "execute cb op w = (Inr r, cb, w1)"
    using assms(1) by (simp add: execute_closed_success)
qed

lemma alwaysFails_failingOp: "alwaysFails failingOp"
  by (simp add: alwaysFails_def failingOp_def)

theorem closed_breaker_counts_failures_witness:
  "state (fst (executeAll [failingOp] (new_CircuitBreaker 2 1000) (testWorld (\<lambda>k. 1000)))) = CLOSED
   \<and> state (fst (executeAll [failingOp, failingOp] (new_CircuitBreaker 2 1000)
                  (testWorld (\<lambda>k. 1000)))) = OPEN
   \<and> execute (new_CircuitBreaker 2 1000) succeedingOp (testWorld (\<lambda>k. 1000)) =
       (Inr (), new_CircuitBreaker 2 1000,
        (testWorld (\<lambda>k. 1000))\<lparr>sendLog := [(''op'', ''succeeded'')]\<rparr>)"
proof -
  let ?cb = "new_CircuitBreaker 2 1000"
  let ?w = "testWorld (\<lambda>k. 1000)"
  have c: "state ?cb = CLOSED" by (simp add: new_CircuitBreaker_def)
  have f1: "\<forall>fn \<in> set [failingOp]. alwaysFails fn" by (simp add: alwaysFails_failingOp)
  have f2: "\<forall>fn \<in> set [failingOp, failingOp]. alwaysFails fn" by (simp add: alwaysFails_failingOp)
  have s: "succeedingOp ?w = (Inr (), ?w\<lparr>sendLog := [(''op'', ''succeeded'')]\<rparr>)"
    by (simp add: succeedingOp_def testWorld_def)
  have p1: "failureCount ?cb + int (length [failingOp]) < failureThreshold ?cb"
    by (simp add: new_CircuitBreaker_def)
  have p2: "[failingOp, failingOp] \<noteq> []
            \<and> failureCount ?cb + int (length [failingOp, failingOp]) = failureThreshold ?cb"
    by (simp add: new_CircuitBreaker_def)
  have one: "state (fst (executeAll [failingOp] ?cb ?w)) = CLOSED"
    using closed_breaker_counts_failures [OF c f1, of ?w] p1 by blast
  have two: "state (fst (executeAll [failingOp, failingOp] ?cb ?w)) = OPEN"
    using closed_breaker_counts_failures [OF c f2, of ?w] p2 by blast
  have every: "\<forall>op r w1. op ?w = (Inr r, w1) \<longrightarrow> execute ?cb op ?w = (Inr r, ?cb, w1)"
    using closed_breaker_counts_failures [OF c f1, of ?w] by (elim conjE)
  have ok: "execute ?cb succeedingOp ?w = (Inr (), ?cb, ?w\<lparr>sendLog := [(''op'', ''succeeded'')]\<rparr>)"
    by (rule every [rule_format, of succeedingOp "()" "?w\<lparr>sendLog := [(''op'', ''succeeded'')]\<rparr>",
          OF s])
  show ?thesis by (rule conjI [OF one conjI [OF two ok]])
qed

text \<open>
  The claim as written fails for a closed breaker that has counted a failure before: with
  \<open>failureThreshold = 2\<close>, after one failure and one success the breaker is closed with
  \<open>failureCount = 1\<close>, and a single further failure (a run of one, fewer than two) opens it.
\<close>

theorem closed_breaker_opens_early_counterexample:
  "fst (executeAll [failingOp, succeedingOp] (new_CircuitBreaker 2 1000) (testWorld (\<lambda>k. 1000)))
     = \<lparr>state = CLOSED, failureCount = 1, lastFailureTime = Some 1000,
        failureThreshold = 2, resetTimeout = 1000\<rparr>
   \<and> alwaysFails failingOp
   \<and> int (length [failingOp]) < 2
   \<and> state (fst (executeAll [failingOp]
        \<lparr>state = CLOSED, failureCount = 1, lastFailureTime = Some 1000,
         failureThreshold = 2, resetTimeout = 1000\<rparr> (testWorld (\<lambda>k. 1000)))) = OPEN"
proof -
  have a: "fst (executeAll [failingOp, succeedingOp] (new_CircuitBreaker 2 1000) (testWorld (\<lambda>k. 1000)))
     = \<lparr>state = CLOSED, failureCount = 1, lastFailureTime = Some 1000,
        failureThreshold = 2, resetTimeout = 1000\<rparr>"
    by (simp add: breaker_defs)
  have b: "state (fst (executeAll [failingOp]
        \<lparr>state = CLOSED, failureCount = 1, lastFailureTime = Some 1000,
         failureThreshold = 2, resetTimeout = 1000\<rparr> (testWorld (\<lambda>k. 1000)))) = OPEN"
    by (simp add: breaker_defs)
  have c: "int (length [failingOp]) < 2" by simp
  show ?thesis by (rule conjI [OF a conjI [OF alwaysFails_failingOp conjI [OF c b]]])
qed

section \<open>Circuit breaker: the open state and the half-open trial\<close>

text \<open>
  What holds of an open breaker whose last failure has a stamp other than \<open>0\<close>: before the
  timeout a call is refused and the operation is not run; from the timeout on the guard
  lets the call through as a half-open trial, whose result decides the next state.
\<close>

lemma open_rejects_before_timeout:
  assumes "state cb = OPEN" and "lastFailureTime cb = Some t"
    and "clockAt w (clockCalls w) - t < resetTimeout cb"
  shows "execute cb fn w = (Inl (Error ''CIRCUIT''), cb, w\<lparr>clockCalls := Suc (clockCalls w)\<rparr>)"
  using assms by (simp add: execute_def execute_guard_def getCurrentTime_def)

lemma open_admits_after_timeout:
  assumes "state cb = OPEN" and "lastFailureTime cb = Some t" and "t \<noteq> 0"
    and "clockAt w (clockCalls w) - t \<ge> resetTimeout cb"
  shows "execute_guard cb w = (Inr (cb\<lparr>state := HALF_OPEN\<rparr>), w\<lparr>clockCalls := Suc (clockCalls w)\<rparr>)"
  using assms by (simp add: execute_guard_def getCurrentTime_def)

lemma half_open_trial_decides:
  assumes "state cb = OPEN" and "lastFailureTime cb = Some t" and "t \<noteq> 0"
    and "clockAt w (clockCalls w) - t \<ge> resetTimeout cb"
    and "failureCount cb \<ge> failureThreshold cb"
  shows "(fn (w\<lparr>clockCalls := Suc (clockCalls w)\<rparr>) = (Inr r, w2) \<longrightarrow>
            execute cb fn w =
              (Inr r, cb\<lparr>state := CLOSED, failureCount := 0, lastFailureTime := None\<rparr>, w2))
       \<and> (fn (w\<lparr>clockCalls := Suc (clockCalls w)\<rparr>) = (Inl err, w2) \<longrightarrow>
            execute cb fn w =
              (Inl err,
               cb\<lparr>state := OPEN, failureCount := failureCount cb + 1,
                  lastFailureTime := Some (clockAt w2 (clockCalls w2))\<rparr>,
               w2\<lparr>clockCalls := Suc (clockCalls w2)\<rparr>))"
  using assms
  by (simp add: execute_def execute_guard_def execute_onSuccess_def execute_onFailure_def
        getCurrentTime_def Let_def)

text \<open>An open breaker whose last failure is stamped \<open>0\<close> refuses every call, at any time.\<close>

lemma zero_stamp_never_admits:
  assumes "state cb = OPEN" and "lastFailureTime cb = Some 0"
  shows "execute cb fn w = (Inl (Error ''CIRCUIT''), cb, w\<lparr>clockCalls := Suc (clockCalls w)\<rparr>)"
  using assms by (simp add: execute_def execute_guard_def getCurrentTime_def)

text \<open>
  Claim C5 at a failure stamped \<open>0\<close>. A breaker with \<open>failureThreshold = 1\<close> and
  \<open>resetTimeout = 1000\<close> fails once while the injected clock reads \<open>0\<close>: it is open with
  \<open>lastFailureTime = 0\<close>. The next call comes when the clock reads \<open>5000\<close>, long after the
  timeout, and is still refused with \<^verbatim>\<open>Error('CIRCUIT')\<close>; the operation is not run (the
  log holds the first call only) and the breaker stays as it was. The test
  \<^verbatim>\<open>this.lastFailureTime && ...\<close> takes the stamp \<open>0\<close> for a missing one.
\<close>

theorem zero_stamp_blocks_half_open:
  "(let opened = executeAll [failingOp] (new_CircuitBreaker 1 1000) (testWorld zeroThenLate);
        cb = fst opened; w = snd opened
    in cb = \<lparr>state = OPEN, failureCount = 1, lastFailureTime = Some 0,
              failureThreshold = 1, resetTimeout = 1000\<rparr>
       \<and> clockAt w (clockCalls w) - 0 \<ge> resetTimeout cb
       \<and> execute cb succeedingOp w = (Inl (Error ''CIRCUIT''), cb, w\<lparr>clockCalls := Suc (clockCalls w)\<rparr>)
       \<and> sendLog (snd (snd (execute cb succeedingOp w))) = [(''op'', ''failed'')])"
  by (simp add: breaker_defs zeroThenLate_def Let_def)

section \<open>Rate limiter\<close>

text \<open>
  For \<open>maxRequests \<ge> 1\<close>, a list no longer than \<open>maxRequests\<close> and a clock that has not run
  backwards, \<^verbatim>\<open>acquire\<close> throws exactly when the window already holds \<open>maxRequests\<close>
  stamps, and records a stamp exactly when it does not throw. The bound on the list is
  kept by \<^verbatim>\<open>acquire\<close>.
\<close>

lemma cleanup_is_window:
  assumes "\<forall>t \<in> set (requestTimestamps rl). t \<le> now"
  shows "requestTimestamps (cleanupOldRequests now rl) =
           filter (\<lambda>t. now - timeWindow rl < t \<and> t \<le> now) (requestTimestamps rl)"
  using assms by (auto simp: cleanupOldRequests_def Let_def intro: filter_cong)

lemma acquire_admits_below_limit:
  assumes "1 \<le> maxRequests rl" and "int (length (requestTimestamps rl)) \<le> maxRequests rl"
    and "\<forall>t \<in> set (requestTimestamps rl). t \<le> clockAt w (clockCalls w)"
  shows "acquire rl w =
           (if admittedInWindow (clockAt w (clockCalls w)) rl = maxRequests rl
            then (Inl (Error ''RATE_LIMIT''), cleanupOldRequests (clockAt w (clockCalls w)) rl,
                  w\<lparr>clockCalls := Suc (clockCalls w)\<rparr>)
            else (Inr (),
                  (cleanupOldRequests (clockAt w (clockCalls w)) rl)
                    \<lparr>requestTimestamps :=
                       requestTimestamps (cleanupOldRequests (clockAt w (clockCalls w)) rl)
                         @ [clockAt w (clockCalls w)]\<rparr>,
                  w\<lparr>clockCalls := Suc (clockCalls w)\<rparr>))"
proof -
  let ?now = "clockAt w (clockCalls w)"
  let ?rl1 = "cleanupOldRequests ?now rl"
  let ?kept = "requestTimestamps ?rl1"
  have kept: "?kept = filter (\<lambda>t. ?now - timeWindow rl < t \<and> t \<le> ?now) (requestTimestamps rl)"
    using assms(3) by (rule cleanup_is_window)
  have cnt: "admittedInWindow ?now rl = int (length ?kept)"
    by (simp add: admittedInWindow_def kept)
  have le: "int (length ?kept) \<le> maxRequests rl"
  proof -
    have "length ?kept \<le> length (requestTimestamps rl)" by (simp add: kept)
    then show ?thesis using assms(2) by linarith
  qed
  have fields: "maxRequests ?rl1 = maxRequests rl \<and> timeWindow ?rl1 = timeWindow rl"
    by (simp add: cleanupOldRequests_def Let_def)
  show ?thesis
  proof (cases "int (length ?kept) = maxRequests rl")
    case True
    then obtain oldest rest where cons: "?kept = oldest # rest"
      using assms(1) by (cases ?kept) auto
    have "oldest \<in> set ?kept" using cons by simp
    then have "?now - timeWindow rl < oldest" unfolding kept by simp
    then have "oldest + timeWindow rl - ?now > 0" by simp
    then show ?thesis
      using True cons cnt fields by (simp add: acquire_def getCurrentTime_def Let_def)
  next
    case False
    then have "int (length ?kept) < maxRequests rl" using le by simp
    then show ?thesis
      using False cnt fields by (simp add: acquire_def getCurrentTime_def Let_def)
  qed
qed

lemma acquire_keeps_limit:
  assumes "1 \<le> maxRequests rl" and "int (length (requestTimestamps rl)) \<le> maxRequests rl"
  shows "int (length (requestTimestamps (fst (snd (acquire rl w))))) \<le> maxRequests rl
       \<and> maxRequests (fst (snd (acquire rl w))) = maxRequests rl
       \<and> timeWindow (fst (snd (acquire rl w))) = timeWindow rl"
proof -
  let ?now = "clockAt w (clockCalls w)"
  let ?kept = "filter (\<lambda>t. t > ?now - timeWindow rl) (requestTimestamps rl)"
  have le: "int (length ?kept) \<le> maxRequests rl"
  proof -
    have "length ?kept \<le> length (requestTimestamps rl)" by simp
    then show ?thesis using assms(2) by linarith
  qed
  show ?thesis
  proof (cases ?kept)
    case Nil
    then show ?thesis
      using assms(1) by (simp add: acquire_def getCurrentTime_def Let_def cleanupOldRequests_def)
  next
    case (Cons oldest rest)
    have "oldest \<in> set ?kept" using Cons by simp
    then have w: "oldest + timeWindow rl - ?now > 0" by simp
    show ?thesis
      using Cons w le
      by (simp add: acquire_def getCurrentTime_def Let_def cleanupOldRequests_def)
  qed
qed

text \<open>With no stamp left inside the window a request is admitted, whatever \<open>maxRequests\<close> is.\<close>

lemma empty_window_always_admits:
  assumes "requestTimestamps (cleanupOldRequests (clockAt w (clockCalls w)) rl) = []"
  shows "acquire rl w =
           (Inr (), (cleanupOldRequests (clockAt w (clockCalls w)) rl)
                      \<lparr>requestTimestamps := [clockAt w (clockCalls w)]\<rparr>,
            w\<lparr>clockCalls := Suc (clockCalls w)\<rparr>)"
  using assms by (simp add: acquire_def getCurrentTime_def Let_def)

text \<open>
  Claim C7 at \<open>maxRequests = 0\<close>. No request has been admitted, so the number of admitted
  requests in the window equals \<open>maxRequests\<close>; \<^verbatim>\<open>acquire\<close> enters the branch of the full
  window, reads \<^verbatim>\<open>requestTimestamps[0]\<close> of an empty list, compares \<^verbatim>\<open>NaN > 0\<close> and
  throws nothing: the request is admitted and its stamp recorded.
\<close>

theorem zero_limit_admits_first_request:
  "acquire (new_RateLimiter 0 1000) (testWorld (\<lambda>k. 1000)) =
     (Inr (), \<lparr>requestTimestamps = [1000], maxRequests = 0, timeWindow = 1000\<rparr>,
      (testWorld (\<lambda>k. 1000))\<lparr>clockCalls := Suc 0\<rparr>)
   \<and> admittedInWindow 1000 (new_RateLimiter 0 1000) = maxRequests (new_RateLimiter 0 1000)"
  by (simp add: acquire_def cleanupOldRequests_def getCurrentTime_def new_RateLimiter_def
        admittedInWindow_def testWorld_def Let_def)

text \<open>
  Claim C9 at a stale stamp. A limiter with a window of 1000 ms admits one request at
  time \<open>0\<close>. \<^verbatim>\<open>getCurrentRequestCount\<close> takes no time and purges nothing: it returns \<open>1\<close>
  whenever it is called, also at time \<open>5000\<close>, when no recorded stamp lies inside the
  window and \<^verbatim>\<open>cleanupOldRequests\<close> would leave the list empty.
\<close>

theorem count_keeps_stale_stamps:
  "(let rl = fst (snd (acquire (new_RateLimiter 10 1000) (testWorld (\<lambda>k. 0))))
    in requestTimestamps rl = [0]
       \<and> getCurrentRequestCount rl = 1
       \<and> admittedInWindow 5000 rl = 0
       \<and> requestTimestamps (cleanupOldRequests 5000 rl) = [])"
  by (simp add: acquire_def cleanupOldRequests_def getCurrentTime_def new_RateLimiter_def
        admittedInWindow_def getCurrentRequestCount_def testWorld_def Let_def)

section \<open>Retry queue\<close>

lemmas queue_defs =
  enqueue_push_def new_Queue_def finishItem_def shift_def settle_def promiseState_def
  testMessage_def successStatus_def failingDispatch_def succeedingDispatch_def queueAB_def

text \<open>
  One round of \<^verbatim>\<open>process\<close> after the dispatch of the head returned or threw. A failure
  below \<open>maxAttempts\<close> moves the head to the tail and then removes the new head, whatever
  it is; settling and discarding happen only on success and on exhausted attempts.
\<close>

lemma requeue_then_shift:
  assumes "items q = item # rest" and "item_attempts item < queue_maxAttempts q"
  shows "items (finishItem q (Inl err)) = tl (rest @ [item\<lparr>item_attempts := item_attempts item + 1\<rparr>])
       \<and> promises (finishItem q (Inl err)) = promises q"
  using assms by (simp add: finishItem_def shift_def)

lemma exhausted_item_is_rejected:
  assumes "items q = item # rest" and "\<not> item_attempts item < queue_maxAttempts q"
  shows "items (finishItem q (Inl err)) = rest
       \<and> promises (finishItem q (Inl err)) = settle (item_promise item) (Rejected err) (promises q)"
  using assms by (simp add: finishItem_def shift_def)

lemma dispatched_item_is_resolved:
  assumes "items q = item # rest"
  shows "items (finishItem q (Inr st)) = rest
       \<and> promises (finishItem q (Inr st)) = settle (item_promise item) (Resolved st) (promises q)"
  using assms by (simp add: finishItem_def shift_def)

text \<open>
  Claim C2 on a queue that holds \<open>A\<close> and then \<open>B\<close>, with \<open>maxAttempts = 3\<close>. The dispatch of
  \<open>A\<close> fails with \<open>0\<close> attempts counted: \<open>A\<close> is moved to the tail (\<open>[B, A]\<close>), and the
  \<^verbatim>\<open>shift\<close> that follows the \<^verbatim>\<open>try\<close>, meant to remove the processed item, removes \<open>B\<close>.
  \<open>B\<close> is gone from the queue with its promise still pending. The next round dispatches
  \<open>A\<close> again; it fails, is moved to the tail of a queue that holds nothing else and is
  removed by the same \<^verbatim>\<open>shift\<close>. The queue ends empty, both promises stay pending for
  ever, \<open>B\<close> was never dispatched and \<open>A\<close> was never rejected.
\<close>

theorem requeue_drops_next_item:
  "map (\<lambda>i. (msg_id (item_message i), item_attempts i, item_promise i)) (items queueAB)
     = [(''A'', 0, 0), (''B'', 0, 1)]
   \<and> map (\<lambda>i. (msg_id (item_message i), item_attempts i, item_promise i))
        (items (finishItem (queueAB\<lparr>processing := True\<rparr>) (Inl (Error ''dispatch failed''))))
     = [(''A'', 1, 0)]
   \<and> promises (finishItem (queueAB\<lparr>processing := True\<rparr>) (Inl (Error ''dispatch failed'')))
     = [Pending, Pending]
   \<and> items (fst (process queueAB [])) = []
   \<and> promises (fst (process queueAB [])) = [Pending, Pending]
   \<and> snd (process queueAB []) = [''A'', ''A'']"
  by (simp add: queue_defs process.simps)

section \<open>Construction\<close>

text \<open>
  \<^verbatim>\<open>validateConfig\<close> throws exactly for a missing or empty provider list and for a
  negative \<open>maxAttempts\<close> (over the integers).
\<close>

lemma validateConfig_throws_iff:
  "validateConfig config \<noteq> None \<longleftrightarrow>
     (cfg_providers config = None \<or> cfg_providers config = Some []
      \<or> (\<exists>rc m. cfg_retryConfig config = Some rc \<and> cfg_maxAttempts rc = Some m \<and> m < 0))"
  by (auto simp: validateConfig_def split: option.splits)

text \<open>
  Claim C4 at \<open>maxAttempts = 0\<close>: \<^verbatim>\<open>config.retryConfig?.maxAttempts && ...\<close> is falsy for
  \<open>0\<close>, nothing is thrown and the service is built with \<open>maxAttempts = 0\<close>, although the
  message of the error it would throw reads "Max attempts must be at least 1".
\<close>

theorem zero_attempts_pass_validation:
  "validateConfig zeroAttemptsConfig = None
   \<and> \<not> isl (new_EmailService zeroAttemptsConfig)
   \<and> maxAttempts (retryConfig (core (projr (new_EmailService zeroAttemptsConfig)))) = 0
   \<and> queue_maxAttempts (queue (projr (new_EmailService zeroAttemptsConfig))) = 0"
  by (simp add: new_EmailService_def validateConfig_def zeroAttemptsConfig_def healthyProvider_def
        orDefault_def DEFAULT_RETRY_def new_Queue_def Let_def)

section \<open>Evaluation of the fixtures\<close>

lemmas eval_defs =
  sendEmail_def validateEmailInput_def EMAIL_REGEX_test_def andThen_def localClass_def domainClass_def
  letterClass_def lowerChars_def upperChars_def digitChars_def MAX_SUBJECT_LENGTH_def MAX_BODY_LENGTH_def
  uuidv4_def Date_now_def getCurrentTime_def Math_random_def setTimeout_def
  enqueue_def enqueue_push_def process.simps finishItem_def shift_def settle_def promiseState_def
  processEmail_def acquire_def cleanupOldRequests_def attemptLoop.simps calculateBackoffDelay_def
  execute_def execute_guard_def execute_onSuccess_def execute_onFailure_def getState_def invoke_def
  allProvidersFailed_def showNat.simps recordSuccess_def recordFailure_def counter_def
  new_EmailService_def validateConfig_def orDefault_def DEFAULT_RETRY_def DEFAULT_MAX_REQUESTS_def
  DEFAULT_TIME_WINDOW_def DEFAULT_FAILURE_THRESHOLD_def DEFAULT_RESET_TIMEOUT_def
  new_RateLimiter_def new_CircuitBreaker_def new_Queue_def getProviderStatus_def
  SUCCESS_COUNTER_def FAILURE_COUNTER_def LATENCY_HISTOGRAM_def QUEUE_SIZE_GAUGE_def
  testWorld_def failingProvider_def healthyProvider_def successStatus_def testMessage_def
  breakerConfig_def healthyConfig_def serviceOf_def submit_def Let_def

section \<open>Idempotency\<close>

text \<open>A dispatch that returns a status has recorded the message id as sent.\<close>

lemma tryProviders_records_id:
  assumes "tryProviders ps msg a lastError lastName c w = (Some st, lastError1, lastName1, c1, w1)"
  shows "msg_id msg \<in> sentMessageIds c1"
  using assms
proof (induction ps arbitrary: lastError lastName c w)
  case Nil
  then show ?case by simp
next
  case (Cons p ps)
  show ?case
  proof (cases "circuitBreakers c (name p)")
    case None
    then show ?thesis
      using Cons.prems Cons.IH [of "Some (Error ''TypeError'')" "Some (name p)" c w] by simp
  next
    case (Some cb)
    show ?thesis
    proof (cases "getState cb = OPEN")
      case True
      then show ?thesis
        using Some Cons.prems Cons.IH [of lastError "Some (name p)" c w] by simp
    next
      case False
      obtain r cb1 w2 where ex: "execute cb (invoke p msg) w = (r, cb1, w2)"
        by (cases "execute cb (invoke p msg) w") auto
      show ?thesis
      proof (cases r)
        case (Inl err)
        have "tryProviders ps msg a (Some err) (Some (name p))
                (c\<lparr>circuitBreakers := (circuitBreakers c)(name p \<mapsto> cb1)\<rparr>) w2
              = (Some st, lastError1, lastName1, c1, w1)"
          using Cons.prems Some False ex Inl by simp
        then show ?thesis by (rule Cons.IH)
      next
        case (Inr st1)
        then show ?thesis
          using Cons.prems Some False ex
          by (auto simp: getCurrentTime_def split: prod.splits)
      qed
    qed
  qed
qed

lemma attemptLoop_records_id:
  "attemptLoop rc ps msg a lastError lastName c w = ((Inr st, n), c1, w1)
     \<Longrightarrow> msg_id msg \<in> sentMessageIds c1"
proof (induction rc ps msg a lastError lastName c w rule: attemptLoop.induct)
  case (1 rc ps msg a lastError lastName c w)
  show ?case
  proof (cases "a < maxAttempts rc")
    case False
    then show ?thesis using "1.prems" by (simp add: attemptLoop.simps)
  next
    case True
    obtain delay w2 where cd: "calculateBackoffDelay rc (a + 1) w = (delay, w2)"
      by (cases "calculateBackoffDelay rc (a + 1) w") auto
    obtain res le1 ln1 c2 w3 where tp:
      "tryProviders ps msg (a + 1) lastError lastName c w2 = (res, le1, ln1, c2, w3)"
      by (cases "tryProviders ps msg (a + 1) lastError lastName c w2") auto
    show ?thesis
    proof (cases res)
      case (Some st1)
      then have "c1 = c2" using "1.prems" True cd tp by (simp add: attemptLoop.simps)
      then show ?thesis using tryProviders_records_id tp Some by blast
    next
      case None
      let ?w4 = "if a + 1 < maxAttempts rc then setTimeout delay w3 else w3"
      have rec: "attemptLoop rc ps msg (a + 1) le1 ln1 c2 ?w4 = ((Inr st, n), c1, w1)"
        using "1.prems" True cd tp None by (simp add: attemptLoop.simps)
      show ?thesis
        using "1.IH" [OF True cd [symmetric] tp [symmetric] None refl refl refl rec] .
    qed
  qed
qed

lemma processEmail_records_id:
  assumes "processEmail msg (c, w) = (Inr st, c1, w1)"
  shows "msg_id msg \<in> sentMessageIds c1"
proof -
  obtain r0 rl1 w0 where ac: "acquire (rateLimiter c) w = (r0, rl1, w0)"
    by (cases "acquire (rateLimiter c) w") auto
  show ?thesis
  proof (cases r0)
    case (Inl err)
    then show ?thesis using assms ac by (simp add: processEmail_def)
  next
    case (Inr u)
    obtain r n c2 w2 where al:
      "attemptLoop (retryConfig c) (providers c) msg 0 None None (c\<lparr>rateLimiter := rl1\<rparr>) w0
         = ((r, n), c2, w2)"
      by (cases "attemptLoop (retryConfig c) (providers c) msg 0 None None (c\<lparr>rateLimiter := rl1\<rparr>) w0")
         auto
    have "r = Inr st \<and> c2 = c1" using assms ac Inr al by (simp add: processEmail_def)
    then show ?thesis using al attemptLoop_records_id by blast
  qed
qed

text \<open>
  \<^verbatim>\<open>enqueue\<close> on an idle queue runs the dispatch once; the promise is resolved when it
  returns, and left pending (or rejected, when \<open>maxAttempts \<le> 0\<close>) when it throws.
\<close>

lemma enqueue_idle:
  assumes "items q = []" and "\<not> processing q" and "f msg c = (r, c1)"
  shows "fst (enqueue msg f q c) = length (promises q)
       \<and> snd (snd (enqueue msg f q c)) = c1
       \<and> items (fst (snd (enqueue msg f q c))) = []
       \<and> promiseState (fst (snd (enqueue msg f q c))) (length (promises q)) =
           (case r of
              Inr st \<Rightarrow> Resolved st
            | Inl err \<Rightarrow> if 0 < queue_maxAttempts q then Pending else Rejected err)"
  using assms
  by (cases r)
     (simp_all add: enqueue_def enqueue_push_def process.simps finishItem_def shift_def settle_def
        promiseState_def nth_append)

lemma enqueue_busy:
  assumes "processing q"
  shows "promiseState (fst (snd (enqueue msg f q c))) (fst (enqueue msg f q c)) = Pending"
  using assms by (simp add: enqueue_def enqueue_push_def promiseState_def nth_append)

lemma sendEmail_returned_records_id:
  assumes "items (queue s) = []"
    and "sendEmail toAddr fromAddr subject body metadata s w = (Returned st, s1, w1)"
  shows "uuidAt w (uuidCalls w) \<in> sentMessageIds (core s1)"
proof -
  let ?msg = "\<lparr>msg_id = uuidAt w (uuidCalls w), msg_to = toAddr, msg_from = fromAddr,
               msg_subject = subject, msg_body = body, msg_metadata = metadata\<rparr>"
  let ?w1 = "w\<lparr>uuidCalls := Suc (uuidCalls w)\<rparr>"
  let ?w2 = "?w1\<lparr>dateNowCalls := Suc (dateNowCalls ?w1)\<rparr>"
  have valid: "validateEmailInput toAddr fromAddr subject body = None"
    using assms(2) by (auto simp: sendEmail_def split: option.splits)
  have fresh: "uuidAt w (uuidCalls w) \<notin> sentMessageIds (core s)"
    using assms(2) valid by (auto simp: sendEmail_def uuidv4_def Let_def split: if_splits)
  obtain p q1 c1 w3 where en: "enqueue ?msg processEmail (queue s) (core s, ?w2) = (p, q1, c1, w3)"
    by (cases "enqueue ?msg processEmail (queue s) (core s, ?w2)") auto
  have res: "promiseState q1 p = Resolved st \<and> core s1 = c1"
    using assms(2) valid fresh en
    by (auto simp: sendEmail_def uuidv4_def Date_now_def Let_def recordSuccess_def recordFailure_def
          split: settlement.splits prod.splits)
  show ?thesis
  proof (cases "processing (queue s)")
    case True
    then show ?thesis using enqueue_busy [of "queue s" ?msg processEmail "(core s, ?w2)"] en res by simp
  next
    case False
    obtain r c2 w4 where pe: "processEmail ?msg (core s, ?w2) = (r, c2, w4)"
      by (cases "processEmail ?msg (core s, ?w2)") auto
    have e: "snd (snd (enqueue ?msg processEmail (queue s) (core s, ?w2))) = (c2, w4)
       \<and> promiseState (fst (snd (enqueue ?msg processEmail (queue s) (core s, ?w2))))
            (length (promises (queue s))) =
           (case r of
              Inr st \<Rightarrow> Resolved st
            | Inl err \<Rightarrow> if 0 < queue_maxAttempts (queue s) then Pending else Rejected err)
       \<and> fst (enqueue ?msg processEmail (queue s) (core s, ?w2)) = length (promises (queue s))"
      using enqueue_idle [of "queue s" processEmail ?msg "(core s, ?w2)" r "(c2, w4)"] assms(1) False pe
      by simp
    then have "r = Inr st \<and> c2 = c1"
      using en res by (cases r) (auto split: if_splits)
    then have "processEmail ?msg (core s, ?w2) = (Inr st, c1, w4)" using pe by simp
    then have "msg_id ?msg \<in> sentMessageIds c1" by (rule processEmail_records_id)
    then show ?thesis using res by simp
  qed
qed

text \<open>
  Claim C1. A submission whose input passes \<^verbatim>\<open>validateEmailInput\<close> and whose minted id is
  already in \<open>sentMessageIds\<close> throws \<^verbatim>\<open>DUPLICATE_MESSAGE\<close>: the service is left as it was
  (nothing is enqueued, no metric is touched) and the world changes by the one call of
  \<^verbatim>\<open>uuidv4\<close> only, so no backend is called. The id is in the set in particular when an
  earlier submission with the same id, made on an idle queue, returned a status and left
  the service and the world in the state the second submission starts from.
\<close>

theorem resubmission_rejected_as_duplicate:
  assumes "validateEmailInput toAddr fromAddr subject body = None"
    and "uuidAt w (uuidCalls w) \<in> sentMessageIds (core s)
         \<or> (\<exists>to0 from0 subject0 body0 metadata0 s0 w0 st.
               items (queue s0) = []
               \<and> sendEmail to0 from0 subject0 body0 metadata0 s0 w0 = (Returned st, s, w)
               \<and> uuidAt w0 (uuidCalls w0) = uuidAt w (uuidCalls w))"
  shows "sendEmail toAddr fromAddr subject body metadata s w =
           (Threw (EmailError ''Duplicate message ID detected'' DUPLICATE_MESSAGE None),
            s, w\<lparr>uuidCalls := Suc (uuidCalls w)\<rparr>)"
proof -
  have "uuidAt w (uuidCalls w) \<in> sentMessageIds (core s)"
    using assms(2) sendEmail_returned_records_id by metis
  then show ?thesis
    using assms(1) by (simp add: sendEmail_def uuidv4_def Let_def)
qed

theorem resubmission_rejected_as_duplicate_witness:
  "fst (submit (serviceOf healthyConfig, testWorld (\<lambda>k. 1000)))
     = Returned (successStatus (testMessage ''test-123''))
   \<and> submit (snd (submit (serviceOf healthyConfig, testWorld (\<lambda>k. 1000)))) =
       (Threw (EmailError ''Duplicate message ID detected'' DUPLICATE_MESSAGE None),
        fst (snd (submit (serviceOf healthyConfig, testWorld (\<lambda>k. 1000)))),
        (snd (snd (submit (serviceOf healthyConfig, testWorld (\<lambda>k. 1000)))))\<lparr>uuidCalls := 2\<rparr>)"
proof -
  let ?s0 = "serviceOf healthyConfig"
  let ?w0 = "testWorld (\<lambda>k. 1000)"
  let ?first = "submit (?s0, ?w0)"
  have valid: "validateEmailInput ''test@example.com'' ''sender@example.com'' ''Test Subject''
                 ''Test Body'' = None"
    by (simp add: eval_defs)
  have idle: "items (queue ?s0) = []" by (simp add: eval_defs)
  have returned: "fst ?first = Returned (successStatus (testMessage ''test-123''))"
    by (simp add: eval_defs)
  have calls: "uuidCalls (snd (snd ?first)) = 1" by (simp add: eval_defs)
  have ids: "uuidAt (snd (snd ?first)) = (\<lambda>k. ''test-123'') \<and> uuidAt ?w0 = (\<lambda>k. ''test-123'')"
    by (simp add: eval_defs)
  have run: "sendEmail ''test@example.com'' ''sender@example.com'' ''Test Subject'' ''Test Body''
               None ?s0 ?w0
             = (Returned (successStatus (testMessage ''test-123'')), fst (snd ?first), snd (snd ?first))"
    using returned by (simp add: submit_def prod_eq_iff)
  have earlier: "uuidAt (snd (snd ?first)) (uuidCalls (snd (snd ?first))) \<in> sentMessageIds (core (fst (snd ?first)))
         \<or> (\<exists>to0 from0 subject0 body0 metadata0 s0 w0 st.
               items (queue s0) = []
               \<and> sendEmail to0 from0 subject0 body0 metadata0 s0 w0
                   = (Returned st, fst (snd ?first), snd (snd ?first))
               \<and> uuidAt w0 (uuidCalls w0)
                   = uuidAt (snd (snd ?first)) (uuidCalls (snd (snd ?first))))"
    using idle run ids by (intro disjI2 exI [of _ ?s0] exI [of _ ?w0] exI conjI) simp_all
  have "sendEmail ''test@example.com'' ''sender@example.com'' ''Test Subject'' ''Test Body'' None
          (fst (snd ?first)) (snd (snd ?first))
        = (Threw (EmailError ''Duplicate message ID detected'' DUPLICATE_MESSAGE None),
           fst (snd ?first), (snd (snd ?first))\<lparr>uuidCalls := Suc (uuidCalls (snd (snd ?first)))\<rparr>)"
    using resubmission_rejected_as_duplicate [OF valid earlier] .
  then have "submit (snd ?first)
        = (Threw (EmailError ''Duplicate message ID detected'' DUPLICATE_MESSAGE None),
           fst (snd ?first), (snd (snd ?first))\<lparr>uuidCalls := 2\<rparr>)"
    using calls by (simp add: submit_def)
  then show ?thesis using returned by simp
qed

section \<open>Dispatch through an open circuit\<close>

text \<open>
  Whatever the state, a dispatch that fails throws \<^verbatim>\<open>RATE_LIMIT\<close> or
  \<^verbatim>\<open>ALL_PROVIDERS_FAILED\<close>: the \<^verbatim>\<open>Error('CIRCUIT')\<close> of a breaker is never what
  \<^verbatim>\<open>processEmail\<close> throws.
\<close>

lemma attemptLoop_error:
  "attemptLoop rc ps msg a lastError lastName c w = ((Inl err, n), c1, w1)
     \<Longrightarrow> \<exists>m orig. err = EmailError m ALL_PROVIDERS_FAILED orig"
proof (induction rc ps msg a lastError lastName c w rule: attemptLoop.induct)
  case (1 rc ps msg a lastError lastName c w)
  show ?case
  proof (cases "a < maxAttempts rc")
    case False
    then show ?thesis using "1.prems" by (auto simp: attemptLoop.simps allProvidersFailed_def)
  next
    case True
    obtain delay w2 where cd: "calculateBackoffDelay rc (a + 1) w = (delay, w2)"
      by (cases "calculateBackoffDelay rc (a + 1) w") auto
    obtain res le1 ln1 c2 w3 where tp:
      "tryProviders ps msg (a + 1) lastError lastName c w2 = (res, le1, ln1, c2, w3)"
      by (cases "tryProviders ps msg (a + 1) lastError lastName c w2") auto
    show ?thesis
    proof (cases res)
      case (Some st1)
      then show ?thesis using "1.prems" True cd tp by (simp add: attemptLoop.simps)
    next
      case None
      let ?w4 = "if a + 1 < maxAttempts rc then setTimeout delay w3 else w3"
      have rec: "attemptLoop rc ps msg (a + 1) le1 ln1 c2 ?w4 = ((Inl err, n), c1, w1)"
        using "1.prems" True cd tp None by (simp add: attemptLoop.simps)
      show ?thesis
        using "1.IH" [OF True cd [symmetric] tp [symmetric] None refl refl refl rec] .
    qed
  qed
qed

lemma dispatch_errors:
  assumes "processEmail msg cw = (Inl err, c1, w1)"
  shows "err = EmailError ''Rate limit exceeded'' RATE_LIMIT None
       \<or> (\<exists>m orig. err = EmailError m ALL_PROVIDERS_FAILED orig)"
proof -
  obtain c w where cw: "cw = (c, w)" by (cases cw) auto
  obtain r0 rl1 w0 where ac: "acquire (rateLimiter c) w = (r0, rl1, w0)"
    by (cases "acquire (rateLimiter c) w") auto
  show ?thesis
  proof (cases r0)
    case (Inl e)
    have "e = Error ''RATE_LIMIT''"
      using ac Inl by (auto simp: acquire_def Let_def split: prod.splits if_splits)
    then show ?thesis using assms cw ac Inl by (simp add: processEmail_def)
  next
    case (Inr u)
    obtain r n c2 w2 where al:
      "attemptLoop (retryConfig c) (providers c) msg 0 None None (c\<lparr>rateLimiter := rl1\<rparr>) w0
         = ((r, n), c2, w2)"
      by (cases "attemptLoop (retryConfig c) (providers c) msg 0 None None (c\<lparr>rateLimiter := rl1\<rparr>) w0")
         auto
    have "r = Inl err" using assms cw ac Inr al by (simp add: processEmail_def)
    then show ?thesis using al attemptLoop_error by blast
  qed
qed

text \<open>
  The scenario of the test "should open circuit after threshold failures": one backend
  that always fails, \<open>failureThreshold = 2\<close>, \<open>resetTimeout = 1000\<close>, the clock fixed at
  \<open>1000\<close>, every other setting at its default (\<open>maxAttempts = 3\<close>).
\<close>

lemma two_failed_submissions:
  "submit (snd (submit (serviceOf breakerConfig, testWorld (\<lambda>k. 1000))))
     = (NeverSettles, openService, openWorld)"
  by (simp add: eval_defs openService_def openWorld_def defaultDelay_def)

lemma first_failed_submission:
  "fst (submit (serviceOf breakerConfig, testWorld (\<lambda>k. 1000))) = NeverSettles
   \<and> getProviderStatus (fst (snd (submit (serviceOf breakerConfig, testWorld (\<lambda>k. 1000)))))
        ''MockProvider1'' = Some OPEN"
  by (simp add: eval_defs)

text \<open>
  Claim C3 on that scenario. After two submissions the breaker is open (it is open after
  the first one already, whose second attempt is the second failure) and neither promise
  has settled: the queue has dropped both entries. The third submission does not call the
  backend, but its dispatch does not throw a circuit-open error either: the loop skips the
  open breaker without calling \<^verbatim>\<open>execute\<close>, sleeps between its three attempts and throws
  \<^verbatim>\<open>ALL_PROVIDERS_FAILED\<close> with no last error; the promise of the submission is never
  settled.
\<close>

theorem open_circuit_reported_as_all_providers_failed:
  "submit (snd (submit (serviceOf breakerConfig, testWorld (\<lambda>k. 1000))))
     = (NeverSettles, openService, openWorld)
   \<and> getProviderStatus openService ''MockProvider1'' = Some OPEN
   \<and> fst (processEmail (testMessage ''test-123'') (core openService, openWorld))
       = Inl (EmailError
               ''All providers failed after 3 attempts (last provider: MockProvider1): undefined''
               ALL_PROVIDERS_FAILED None)
   \<and> fst (submit (openService, openWorld)) = NeverSettles
   \<and> sendLog (snd (snd (submit (openService, openWorld)))) = sendLog openWorld
   \<and> timerLog (snd (snd (submit (openService, openWorld)))) = timerLog openWorld @ [defaultDelay 1, defaultDelay 2]"
proof -
  have a: "getProviderStatus openService ''MockProvider1'' = Some OPEN"
    by (simp add: eval_defs openService_def)
  have b: "fst (processEmail (testMessage ''test-123'') (core openService, openWorld))
       = Inl (EmailError
               ''All providers failed after 3 attempts (last provider: MockProvider1): undefined''
               ALL_PROVIDERS_FAILED None)"
    by (simp add: eval_defs openService_def openWorld_def)
  have c: "fst (submit (openService, openWorld)) = NeverSettles"
    by (simp add: eval_defs openService_def openWorld_def)
  have d: "sendLog (snd (snd (submit (openService, openWorld)))) = sendLog openWorld"
    by (simp add: eval_defs openService_def openWorld_def)
  have e: "timerLog (snd (snd (submit (openService, openWorld)))) = timerLog openWorld @ [defaultDelay 1, defaultDelay 2]"
    by (simp add: eval_defs openService_def openWorld_def defaultDelay_def)
  show ?thesis
    by (rule conjI [OF two_failed_submissions conjI [OF a conjI [OF b conjI [OF c conjI [OF d e]]]]])
qed

section \<open>Backoff\<close>

text \<open>
  The delay of an attempt is the jittered expression, built from the retry settings, the
  attempt number and the number that this call of \<^verbatim>\<open>Math.random\<close> returns.
\<close>

lemma calculateBackoffDelay_value:
  "calculateBackoffDelay rc k w =
     (Mul (Math_min (Mul (Number (initialDelay rc))
                         (Math_pow (Number (backoffFactor rc)) (Number (of_int (k - 1)))))
                    (Number (maxDelay rc)))
          (Add (Number 0.75) (Mul (Number (randomAt w (randomCalls w))) (Number 0.5))),
      w\<lparr>randomCalls := Suc (randomCalls w)\<rparr>)"
  by (simp add: calculateBackoffDelay_def Math_random_def Let_def)

text \<open>
  The service calls a backend without drawing a random number or setting a timer of its
  own.
\<close>

lemma execute_invoke_world:
  assumes "execute cb (invoke p msg) w = (r, cb1, w1)"
  shows "randomAt w1 = randomAt w \<and> randomCalls w1 = randomCalls w \<and> timerLog w1 = timerLog w"
  using assms
  by (auto simp: execute_def execute_guard_def execute_onFailure_def invoke_def getCurrentTime_def
        Let_def split: if_splits prod.splits sum.splits)

lemma tryProviders_world:
  assumes "tryProviders ps msg a lastError lastName c w = (res, lastError1, lastName1, c1, w1)"
  shows "randomAt w1 = randomAt w \<and> randomCalls w1 = randomCalls w \<and> timerLog w1 = timerLog w
       \<and> (\<forall>st. res = Some st \<longrightarrow> attempts st = a)"
  using assms
proof (induction ps arbitrary: lastError lastName c w)
  case Nil
  then show ?case by simp
next
  case (Cons p ps)
  show ?case
  proof (cases "circuitBreakers c (name p)")
    case None
    then show ?thesis
      using Cons.prems Cons.IH [of "Some (Error ''TypeError'')" "Some (name p)" c w] by simp
  next
    case (Some cb)
    show ?thesis
    proof (cases "getState cb = OPEN")
      case True
      then show ?thesis
        using Some Cons.prems Cons.IH [of lastError "Some (name p)" c w] by simp
    next
      case False
      obtain r cb1 w2 where ex: "execute cb (invoke p msg) w = (r, cb1, w2)"
        by (cases "execute cb (invoke p msg) w") auto
      have keep: "randomAt w2 = randomAt w \<and> randomCalls w2 = randomCalls w \<and> timerLog w2 = timerLog w"
        using ex by (rule execute_invoke_world)
      show ?thesis
      proof (cases r)
        case (Inl err)
        have "tryProviders ps msg a (Some err) (Some (name p))
                (c\<lparr>circuitBreakers := (circuitBreakers c)(name p \<mapsto> cb1)\<rparr>) w2
              = (res, lastError1, lastName1, c1, w1)"
          using Cons.prems Some False ex Inl by simp
        then show ?thesis using Cons.IH keep by metis
      next
        case (Inr st)
        then show ?thesis
          using Cons.prems Some False ex keep
          by (auto simp: getCurrentTime_def split: prod.splits)
      qed
    qed
  qed
qed

text \<open>
  The attempt loop, entered with the counter at \<open>a\<close> and left with it at \<open>n\<close>, has run the
  iterations of the attempts \<open>a + 1, \<dots>, n\<close>. Each of them has called
  \<^verbatim>\<open>calculateBackoffDelay\<close> once, with its own attempt number, and so drawn one random
  number: the \<open>i\<close>-th iteration the \<open>i\<close>-th number after those drawn before. The timers set
  are the delays of the attempts \<open>a + 1, \<dots>, n - 1\<close>, in this order, each the expression
  with the number drawn in its iteration. The delay of attempt \<open>n\<close>, the attempt that
  succeeded or the last one allowed, has been computed as well (its number is drawn) and
  is handed to no timer. A status returned carries \<open>n\<close> as its attempts. This is the part of
  claim C8 about the loop; the interval that the claim gives for the value of the delay
  is a statement about the binary64 arithmetic that evaluates the expression, and is not
  stated here.
\<close>

lemma attemptLoop_delays:
  "attemptLoop rc ps msg a lastError lastName c w = ((r, n), c1, w1) \<Longrightarrow>
     a \<le> n \<and> (a < maxAttempts rc \<longrightarrow> a < n)
     \<and> randomAt w1 = randomAt w
     \<and> randomCalls w1 = randomCalls w + nat (n - a)
     \<and> timerLog w1 = timerLog w @
          map (\<lambda>i. fst (calculateBackoffDelay rc (a + 1 + int i) (w\<lparr>randomCalls := randomCalls w + i\<rparr>)))
            [0 ..< nat (n - a) - 1]
     \<and> (\<forall>st. r = Inr st \<longrightarrow> attempts st = n)"
proof (induction rc ps msg a lastError lastName c w rule: attemptLoop.induct)
  case (1 rc ps msg a lastError lastName c w)
  show ?case
  proof (cases "a < maxAttempts rc")
    case False
    then show ?thesis using "1.prems" by (auto simp: attemptLoop.simps)
  next
    case True
    obtain delay w2 where cd: "calculateBackoffDelay rc (a + 1) w = (delay, w2)"
      by (cases "calculateBackoffDelay rc (a + 1) w") auto
    have w2: "randomAt w2 = randomAt w \<and> randomCalls w2 = Suc (randomCalls w) \<and> timerLog w2 = timerLog w"
      using cd by (auto simp: calculateBackoffDelay_value)
    obtain res le1 ln1 c2 w3 where tp:
      "tryProviders ps msg (a + 1) lastError lastName c w2 = (res, le1, ln1, c2, w3)"
      by (cases "tryProviders ps msg (a + 1) lastError lastName c w2") auto
    have w3: "randomAt w3 = randomAt w2 \<and> randomCalls w3 = randomCalls w2 \<and> timerLog w3 = timerLog w2
              \<and> (\<forall>st. res = Some st \<longrightarrow> attempts st = a + 1)"
      using tp by (rule tryProviders_world)
    show ?thesis
    proof (cases res)
      case (Some st)
      then have "((r, n), c1, w1) = ((Inr st, a + 1), c2, w3)"
        using "1.prems" True cd tp by (simp add: attemptLoop.simps)
      then show ?thesis using w2 w3 Some True by auto
    next
      case None
      let ?w4 = "if a + 1 < maxAttempts rc then setTimeout delay w3 else w3"
      have rec: "attemptLoop rc ps msg (a + 1) le1 ln1 c2 ?w4 = ((r, n), c1, w1)"
        using "1.prems" True cd tp None by (simp add: attemptLoop.simps)
      have ih: "a + 1 \<le> n \<and> (a + 1 < maxAttempts rc \<longrightarrow> a + 1 < n)
         \<and> randomAt w1 = randomAt ?w4
         \<and> randomCalls w1 = randomCalls ?w4 + nat (n - (a + 1))
         \<and> timerLog w1 = timerLog ?w4 @
              map (\<lambda>i. fst (calculateBackoffDelay rc (a + 1 + 1 + int i)
                               (?w4\<lparr>randomCalls := randomCalls ?w4 + i\<rparr>)))
                [0 ..< nat (n - (a + 1)) - 1]
         \<and> (\<forall>st. r = Inr st \<longrightarrow> attempts st = n)"
        using "1.IH" [OF True cd [symmetric] tp [symmetric] None refl refl refl rec]
        by simp
      have w4: "randomAt ?w4 = randomAt w \<and> randomCalls ?w4 = Suc (randomCalls w)"
        using w2 w3 by (simp add: setTimeout_def)
      have shift: "fst (calculateBackoffDelay rc (a + 1 + 1 + int i) (?w4\<lparr>randomCalls := randomCalls ?w4 + i\<rparr>))
                 = fst (calculateBackoffDelay rc (a + 1 + int (Suc i)) (w\<lparr>randomCalls := randomCalls w + Suc i\<rparr>))"
        for i
        using w4 by (simp add: calculateBackoffDelay_value add.commute add.left_commute)
      have first: "delay = fst (calculateBackoffDelay rc (a + 1 + int 0) (w\<lparr>randomCalls := randomCalls w + 0\<rparr>))"
        using cd by (simp add: calculateBackoffDelay_value)
      show ?thesis
      proof (cases "a + 1 < maxAttempts rc")
        case True
        then have less: "a + 1 < n" using ih by simp
        then obtain m where m: "nat (n - a) - 1 = Suc m" "nat (n - (a + 1)) - 1 = m"
          by (cases "nat (n - a) - 1") auto
        have log4: "timerLog ?w4 = timerLog w @ [delay]"
          using True w2 w3 by (simp add: setTimeout_def)
        have "timerLog w1 = timerLog w @
                map (\<lambda>i. fst (calculateBackoffDelay rc (a + 1 + int i) (w\<lparr>randomCalls := randomCalls w + i\<rparr>)))
                  [0 ..< Suc m]"
          unfolding map_upt_Suc using ih m(2) log4 shift first by simp
        then show ?thesis using ih w4 m less by auto
      next
        case False
        then have "n = a + 1" using rec by (simp add: attemptLoop.simps)
        then show ?thesis using ih w4 w2 w3 False by auto
      qed
    qed
  qed
qed

text \<open>
  On the third submission of the open-circuit scenario: three attempts, three random
  numbers drawn, two timers set.
\<close>

lemma last_delay_computed_and_unused:
  "randomCalls (snd (snd (submit (openService, openWorld)))) = randomCalls openWorld + 3
   \<and> length (timerLog (snd (snd (submit (openService, openWorld))))) = length (timerLog openWorld) + 2"
  by (simp add: eval_defs openService_def openWorld_def)

end
